theory Spec2Isabelle
  imports Complex_Main
begin

section \<open>JavaScript numbers used by the engine\<close>

text \<open>
  The engine is the Vue component with the WebGL fluid solver. Its numbers are JavaScript
  numbers; the model takes them as reals (fractions) or integers and writes out the places
  where JavaScript converts to a 32-bit integer: the shifts \<open><<\<close> and \<open>>>\<close> and the
  \<open>| 0\<close> of \<open>hashCode\<close>. Rounding of floating point is not modelled.
\<close>

definition to_int32 :: "int \<Rightarrow> int" where
  "to_int32 x = (x + 2 ^ 31) mod 2 ^ 32 - 2 ^ 31"

text \<open>\<open>x << n\<close>: both operands to 32 bits, the count masked to five bits.\<close>

definition js_shl :: "int \<Rightarrow> int \<Rightarrow> int" where
  "js_shl x n = to_int32 (to_int32 x * 2 ^ nat (n mod 32))"

text \<open>\<open>x >> n\<close>: the sign-propagating shift, a division rounding down.\<close>

definition js_sar :: "int \<Rightarrow> int \<Rightarrow> int" where
  "js_sar x n = to_int32 x div 2 ^ nat (n mod 32)"

text \<open>\<open>x % y\<close> on numbers: the remainder has the sign of the dividend.\<close>

definition js_trunc :: "real \<Rightarrow> int" where
  "js_trunc z = (if z < 0 then \<lceil>z\<rceil> else \<lfloor>z\<rfloor>)"

definition js_rem :: "real \<Rightarrow> real \<Rightarrow> real" where
  "js_rem x y = x - y * of_int (js_trunc (x / y))"

section \<open>Shader sources and keywords\<close>

text \<open>
  \<open>addKeywords\<close> returns the source as it is when it is given no keywords (\<open>None\<close> here),
  and else puts one \<open>#define\<close> per keyword in front of it. The string literal that closes
  each of them is written with a doubled backslash, so what is appended after the keyword
  is the two characters backslash and \<open>n\<close>, not a line break. A \<open>Material\<close> always passes
  an array, which may be empty.
\<close>

definition addKeywords :: "string \<Rightarrow> string list option \<Rightarrow> string" where
  "addKeywords source keywords =
     (case keywords of
        None \<Rightarrow> source
      | Some ks \<Rightarrow>
          foldl (\<lambda>keywordsString keyword.
                   keywordsString @ ''#define '' @ keyword @ [CHR 0x5C, CHR ''n''])
            [] ks @ source)"

text \<open>
  The source of the display shader. It is a template literal that begins with the line
  break after its opening quote, so every line of it stands after a line break
  (\<open>CHR 10\<close>); the last one is the indentation before the closing quote.
\<close>

definition displayShaderSource :: string where
  "displayShaderSource = concat (map ((#) (CHR 10)) [
      ''        precision highp float;'',
      ''        precision highp sampler2D;'',
      '''',
      ''        varying vec2 vUv;'',
      ''        varying vec2 vL;'',
      ''        varying vec2 vR;'',
      ''        varying vec2 vT;'',
      ''        varying vec2 vB;'',
      ''        uniform sampler2D uTexture;'',
      ''        uniform sampler2D uBloom;'',
      ''        uniform sampler2D uSunrays;'',
      ''        uniform sampler2D uDithering;'',
      ''        uniform vec2 ditherScale;'',
      ''        uniform vec2 texelSize;'',
      '''',
      ''        vec3 linearToGamma (vec3 color) {'',
      ''            color = max(color, vec3(0));'',
      ''            return max(1.055 * pow(color, vec3(0.416666667)) - 0.055, vec3(0));'',
      ''        }'',
      '''',
      ''        void main () {'',
      ''            vec3 c = texture2D(uTexture, vUv).rgb;'',
      '''',
      ''        #ifdef SHADING'',
      ''            vec3 lc = texture2D(uTexture, vL).rgb;'',
      ''            vec3 rc = texture2D(uTexture, vR).rgb;'',
      ''            vec3 tc = texture2D(uTexture, vT).rgb;'',
      ''            vec3 bc = texture2D(uTexture, vB).rgb;'',
      '''',
      ''            float dx = length(rc) - length(lc);'',
      ''            float dy = length(tc) - length(bc);'',
      '''',
      ''            vec3 n = normalize(vec3(dx, dy, length(texelSize)));'',
      ''            vec3 l = vec3(0.0, 0.0, 1.0);'',
      '''',
      ''            float diffuse = clamp(dot(n, l) + 0.7, 0.7, 1.0);'',
      ''            c *= diffuse;'',
      ''        #endif'',
      '''',
      ''        #ifdef BLOOM'',
      ''            vec3 bloom = texture2D(uBloom, vUv).rgb;'',
      ''        #endif'',
      '''',
      ''        #ifdef SUNRAYS'',
      ''            float sunrays = texture2D(uSunrays, vUv).r;'',
      ''            c *= sunrays;'',
      ''        #ifdef BLOOM'',
      ''            bloom *= sunrays;'',
      ''        #endif'',
      ''        #endif'',
      '''',
      ''        #ifdef BLOOM'',
      ''            float noise = texture2D(uDithering, vUv * ditherScale).r;'',
      ''            noise = noise * 2.0 - 1.0;'',
      ''            bloom += noise / 255.0;'',
      ''            bloom = linearToGamma(bloom);'',
      ''            c += bloom;'',
      ''        #endif'',
      '''',
      ''            float a = max(c.r, max(c.g, c.b));'',
      ''            gl_FragColor = vec4(c, a);'',
      ''        }'',
      ''      ''])"

text \<open>
  What the preprocessor of the shader compiler takes from a source text. The text is cut
  into lines at the line breaks. A directive is a line whose first character after blanks
  is \<open>#\<close>, and it ends with its line; \<open>#define\<close> defines the identifier that follows it,
  whatever else stands on the line.
\<close>

primrec source_lines :: "string \<Rightarrow> string list" where
  "source_lines [] = [[]]"
| "source_lines (c # s) =
     (if c = CHR 10 then [] # source_lines s
      else (case source_lines s of [] \<Rightarrow> [[c]] | line # rest \<Rightarrow> (c # line) # rest))"

definition blank :: "char \<Rightarrow> bool" where
  "blank c = (c = CHR '' '' \<or> c = CHR 9)"

definition identifier_char :: "char \<Rightarrow> bool" where
  "identifier_char c =
     (let n = (of_char c :: nat) in
      (65 \<le> n \<and> n \<le> 90) \<or> (97 \<le> n \<and> n \<le> 122) \<or> (48 \<le> n \<and> n \<le> 57) \<or> n = 95)"

definition defined_name :: "string \<Rightarrow> string option" where
  "defined_name line =
     (case dropWhile blank line of
        [] \<Rightarrow> None
      | c # directive \<Rightarrow>
          if c = CHR ''#'' \<and> take 6 (dropWhile blank directive) = ''define''
          then Some (takeWhile identifier_char
                       (dropWhile blank (drop 6 (dropWhile blank directive))))
          else None)"

definition defined_macros :: "string \<Rightarrow> string list" where
  "defined_macros source = List.map_filter defined_name (source_lines source)"

section \<open>The graphics context\<close>

text \<open>
  A texture's image is recorded as the expression that produced it: the clear that
  initialised it, or the draw call that wrote it, with the values of the program's
  uniforms and the images of the textures its samplers read at that moment. Two images
  are equal when they were computed the same way from the same inputs.
\<close>

datatype uval = I int | F real | V2 real real | V3 real real real

datatype program =
    BlurProgram | CopyProgram | ClearProgram | ColorProgram
  | BloomPrefilterProgram | BloomBlurProgram | BloomFinalProgram
  | SunraysMaskProgram | SunraysProgram | SplatProgram | AdvectionProgram
  | DivergenceProgram | CurlProgram | VorticityProgram | PressureProgram
  | GradienSubtractProgram
  | MaterialProgram nat "string list"

text \<open>
  \<open>MaterialProgram n keywords\<close> is the \<open>n\<close>-th program object a \<open>Material\<close> created, with
  the keywords its fragment shader was compiled with.
\<close>

datatype content =
    Cleared "real \<times> real \<times> real \<times> real"
  | NoTexture
  | Shaded program "uval option list" "content list"
  | Blend content content

text \<open>
  The sampler uniforms and the other uniforms the shaders of each program read. For the
  display shader they depend on the macros defined in the text it was compiled from:
  \<open>main\<close> reads \<open>uTexture\<close> in any case, \<open>uBloom\<close>, \<open>uDithering\<close> and \<open>ditherScale\<close> only
  under \<open>#ifdef BLOOM\<close>, and \<open>uSunrays\<close> only under \<open>#ifdef SUNRAYS\<close>; \<open>texelSize\<close> is read
  by the vertex shader.
\<close>

fun samplers :: "program \<Rightarrow> string list" where
  "samplers BlurProgram = [''uTexture'']"
| "samplers CopyProgram = [''uTexture'']"
| "samplers ClearProgram = [''uTexture'']"
| "samplers ColorProgram = []"
| "samplers BloomPrefilterProgram = [''uTexture'']"
| "samplers BloomBlurProgram = [''uTexture'']"
| "samplers BloomFinalProgram = [''uTexture'']"
| "samplers SunraysMaskProgram = [''uTexture'']"
| "samplers SunraysProgram = [''uTexture'']"
| "samplers SplatProgram = [''uTarget'']"
| "samplers AdvectionProgram = [''uVelocity'', ''uSource'']"
| "samplers DivergenceProgram = [''uVelocity'']"
| "samplers CurlProgram = [''uVelocity'']"
| "samplers VorticityProgram = [''uVelocity'', ''uCurl'']"
| "samplers PressureProgram = [''uPressure'', ''uDivergence'']"
| "samplers GradienSubtractProgram = [''uPressure'', ''uVelocity'']"
| "samplers (MaterialProgram n kws) =
     (let macros = defined_macros (addKeywords displayShaderSource (Some kws)) in
      [''uTexture''] @
      (if ''BLOOM'' \<in> set macros then [''uBloom''] else []) @
      (if ''SUNRAYS'' \<in> set macros then [''uSunrays''] else []) @
      (if ''BLOOM'' \<in> set macros then [''uDithering''] else []))"

fun params :: "program \<Rightarrow> string list" where
  "params BlurProgram = [''texelSize'']"
| "params CopyProgram = [''texelSize'']"
| "params ClearProgram = [''texelSize'', ''value'']"
| "params ColorProgram = [''texelSize'', ''color'']"
| "params BloomPrefilterProgram = [''texelSize'', ''curve'', ''threshold'']"
| "params BloomBlurProgram = [''texelSize'']"
| "params BloomFinalProgram = [''texelSize'', ''intensity'']"
| "params SunraysMaskProgram = [''texelSize'']"
| "params SunraysProgram = [''texelSize'', ''weight'']"
| "params SplatProgram = [''texelSize'', ''aspectRatio'', ''color'', ''point'', ''radius'']"
| "params AdvectionProgram = [''texelSize'', ''dyeTexelSize'', ''dt'', ''dissipation'']"
| "params DivergenceProgram = [''texelSize'']"
| "params CurlProgram = [''texelSize'']"
| "params VorticityProgram = [''texelSize'', ''curl'', ''dt'']"
| "params PressureProgram = [''texelSize'']"
| "params GradienSubtractProgram = [''texelSize'']"
| "params (MaterialProgram n kws) =
     (let macros = defined_macros (addKeywords displayShaderSource (Some kws)) in
      [''texelSize''] @ (if ''BLOOM'' \<in> set macros then [''ditherScale''] else []))"

datatype texformat = FormatRGBA | FormatRG | FormatR

datatype texfilter = LINEAR | NEAREST

record gl_state =
  next_texture :: nat
  pixels :: "nat \<Rightarrow> content"
  texinfo :: "nat \<Rightarrow> (texformat \<times> texfilter) option"
  units :: "nat \<Rightarrow> nat option"
  program :: "program option"
  uniforms :: "program \<Rightarrow> string \<Rightarrow> uval option"
  blend :: bool
  clearColor :: "real \<times> real \<times> real \<times> real"
  next_program :: nat
  screen :: content
  draws :: "(program option \<times> nat option) list"

text \<open>
  The context as \<open>getWebGLContext\<close> leaves it: nothing allocated, nothing bound,
  blending off, and the clear colour set by \<open>gl.clearColor(0.0, 0.0, 0.0, 1.0)\<close>.
\<close>

definition getWebGLContext :: gl_state where
  "getWebGLContext = \<lparr> next_texture = 0, pixels = (\<lambda>_. NoTexture),
     texinfo = (\<lambda>_. None), units = (\<lambda>_. None),
     program = None, uniforms = (\<lambda>_ _. None), blend = False, clearColor = (0, 0, 0, 1),
     next_program = 0, screen = NoTexture, draws = [] \<rparr>"

definition useProgram :: "program \<Rightarrow> gl_state \<Rightarrow> gl_state" where
  "useProgram p g = g\<lparr>program := Some p\<rparr>"

text \<open>
  \<open>gl.uniform*(p.uniforms.name, v)\<close>: the location belongs to program \<open>p\<close>, and the call
  sets the uniform only while \<open>p\<close> is the program in use.
\<close>

definition uniform :: "program \<Rightarrow> string \<Rightarrow> uval \<Rightarrow> gl_state \<Rightarrow> gl_state" where
  "uniform p name v g =
     (if program g = Some p then g\<lparr>uniforms := (uniforms g)(p := (uniforms g p)(name \<mapsto> v))\<rparr>
      else g)"

definition sampled :: "gl_state \<Rightarrow> program \<Rightarrow> string \<Rightarrow> content" where
  "sampled g p name =
     (case (case uniforms g p name of Some (I u) \<Rightarrow> units g (nat u) | _ \<Rightarrow> units g 0) of
        None \<Rightarrow> NoTexture
      | Some t \<Rightarrow> pixels g t)"

definition shade :: "gl_state \<Rightarrow> program \<Rightarrow> content" where
  "shade g p = Shaded p (map (uniforms g p) (params p)) (map (sampled g p) (samplers p))"

section \<open>Render targets\<close>

text \<open>
  \<open>createFBO\<close> makes one texture and one framebuffer and attaches the texture for good
  (\<open>framebufferTexture2D\<close> is called nowhere else), so the texture's number stands for the
  pair. The new texture is left bound to unit 0 and holds what \<open>gl.clear\<close> wrote: the
  clear colour of the context.
\<close>

record fbo =
  texture :: nat
  width :: int
  height :: int
  texelSizeX :: real
  texelSizeY :: real

text \<open>
  The double target has its own \<open>width\<close>, \<open>height\<close> and texel sizes beside those of its
  two buffers; they are the fields \<open>dwidth\<close> to \<open>dtexelSizeY\<close> here.
\<close>

record double_fbo =
  dwidth :: int
  dheight :: int
  dtexelSizeX :: real
  dtexelSizeY :: real
  read :: fbo
  "write" :: fbo

definition createFBO :: "int \<Rightarrow> int \<Rightarrow> texformat \<Rightarrow> texfilter \<Rightarrow> gl_state \<Rightarrow> fbo \<times> gl_state" where
  "createFBO w h fmt param g =
     (let t = next_texture g in
      (\<lparr>texture = t, width = w, height = h, texelSizeX = 1.0 / of_int w,
         texelSizeY = 1.0 / of_int h\<rparr>,
       g\<lparr>next_texture := Suc t, units := (units g)(0 \<mapsto> t),
         texinfo := (texinfo g)(t \<mapsto> (fmt, param)),
         pixels := (pixels g)(t := Cleared (clearColor g))\<rparr>))"

definition attach :: "fbo \<Rightarrow> nat \<Rightarrow> gl_state \<Rightarrow> gl_state" where
  "attach f unit g = g\<lparr>units := (units g)(unit \<mapsto> texture f)\<rparr>"

text \<open>
  \<open>blit(target, clear)\<close> draws the full-screen quad with the program in use into the
  target, or into the canvas when the target is \<open>null\<close>. With blending on
  (\<open>gl.blendFunc(gl.ONE, gl.ONE)\<close>) the result is added to what the target held. With no
  program in use \<open>drawElements\<close> draws nothing.
\<close>

definition target_pixels :: "fbo option \<Rightarrow> gl_state \<Rightarrow> content" where
  "target_pixels target g = (case target of None \<Rightarrow> screen g | Some f \<Rightarrow> pixels g (texture f))"

definition write_target :: "fbo option \<Rightarrow> content \<Rightarrow> gl_state \<Rightarrow> gl_state" where
  "write_target target c g =
     (case target of None \<Rightarrow> g\<lparr>screen := c\<rparr>
      | Some f \<Rightarrow> g\<lparr>pixels := (pixels g)(texture f := c)\<rparr>)"

definition blit :: "fbo option \<Rightarrow> bool \<Rightarrow> gl_state \<Rightarrow> gl_state" where
  "blit target clear g =
     (let g1 = (if clear then write_target target (Cleared (0, 0, 0, 1)) (g\<lparr>clearColor := (0, 0, 0, 1)\<rparr>)
                else g)
      in case program g1 of
           None \<Rightarrow> g1
         | Some p \<Rightarrow>
             (let out = shade g1 p;
                  result = (if blend g1 then Blend (target_pixels target g1) out else out)
              in (write_target target result g1)
                   \<lparr>draws := draws g1 @ [(Some p, map_option texture target)]\<rparr>))"

definition createDoubleFBO ::
  "int \<Rightarrow> int \<Rightarrow> texformat \<Rightarrow> texfilter \<Rightarrow> gl_state \<Rightarrow> double_fbo \<times> gl_state" where
  "createDoubleFBO w h fmt param g =
     (case createFBO w h fmt param g of (fbo1, g1) \<Rightarrow>
      case createFBO w h fmt param g1 of (fbo2, g2) \<Rightarrow>
        (\<lparr>dwidth = w, dheight = h, dtexelSizeX = texelSizeX fbo1, dtexelSizeY = texelSizeY fbo1,
           read = fbo1, write = fbo2\<rparr>, g2))"

definition swap :: "double_fbo \<Rightarrow> double_fbo" where
  "swap d = (let temp = read d in d\<lparr>read := write d, write := temp\<rparr>)"

definition resizeFBO ::
  "fbo \<Rightarrow> int \<Rightarrow> int \<Rightarrow> texformat \<Rightarrow> texfilter \<Rightarrow> gl_state \<Rightarrow> fbo \<times> gl_state" where
  "resizeFBO target w h fmt param g =
     (case createFBO w h fmt param g of (newFBO, g1) \<Rightarrow>
        (let g2 = useProgram CopyProgram g1;
             g3 = uniform CopyProgram ''uTexture'' (I 0) (attach target 0 g2);
             g4 = blit (Some newFBO) False g3
         in (newFBO, g4)))"

definition resizeDoubleFBO ::
  "double_fbo \<Rightarrow> int \<Rightarrow> int \<Rightarrow> texformat \<Rightarrow> texfilter \<Rightarrow> gl_state \<Rightarrow> double_fbo \<times> gl_state" where
  "resizeDoubleFBO target w h fmt param g =
     (if dwidth target = w \<and> dheight target = h then (target, g)
      else
        (case resizeFBO (read target) w h fmt param g of (r, g1) \<Rightarrow>
         case createFBO w h fmt param g1 of (wr, g2) \<Rightarrow>
           (target\<lparr>read := r, write := wr, dwidth := w, dheight := h,
              dtexelSizeX := 1.0 / of_int w, dtexelSizeY := 1.0 / of_int h\<rparr>, g2)))"

section \<open>Configuration and the engine's state\<close>

record config =
  SIM_RESOLUTION :: real
  DYE_RESOLUTION :: real
  DENSITY_DISSIPATION :: real
  VELOCITY_DISSIPATION :: real
  PRESSURE :: real
  PRESSURE_ITERATIONS :: nat
  CURL :: real
  SPLAT_RADIUS :: real
  SHADING :: bool
  BLOOM :: bool
  BLOOM_ITERATIONS :: nat
  BLOOM_RESOLUTION :: real
  BLOOM_INTENSITY :: real
  BLOOM_THRESHOLD :: real
  BLOOM_SOFT_KNEE :: real
  SUNRAYS :: bool
  SUNRAYS_RESOLUTION :: real
  SUNRAYS_WEIGHT :: real

definition default_config :: config where
  "default_config = \<lparr> SIM_RESOLUTION = 128, DYE_RESOLUTION = 1024, DENSITY_DISSIPATION = 1,
     VELOCITY_DISSIPATION = 0.2, PRESSURE = 0.8, PRESSURE_ITERATIONS = 20, CURL = 30,
     SPLAT_RADIUS = 0.25, SHADING = True, BLOOM = True, BLOOM_ITERATIONS = 8,
     BLOOM_RESOLUTION = 256, BLOOM_INTENSITY = 0.8, BLOOM_THRESHOLD = 0.6,
     BLOOM_SOFT_KNEE = 0.7, SUNRAYS = True, SUNRAYS_RESOLUTION = 196, SUNRAYS_WEIGHT = 1.0 \<rparr>"

text \<open>Without linear filtering the set-up lowers the dye resolution and turns the effects off.\<close>

definition configure :: "bool \<Rightarrow> config \<Rightarrow> config" where
  "configure supportLinearFiltering c =
     (if \<not> supportLinearFiltering
      then c\<lparr>DYE_RESOLUTION := 512, SHADING := False, BLOOM := False, SUNRAYS := False\<rparr>
      else c)"

record material =
  programs :: "int \<Rightarrow> program option"
  activeProgram :: "program option"

record framebuffers =
  dye :: double_fbo
  velocity :: double_fbo
  divergence :: fbo
  curl :: fbo
  pressure :: double_fbo
  bloom :: fbo
  bloomFramebuffers :: "fbo list"
  sunrays :: fbo
  sunraysTemp :: fbo

record engine = framebuffers +
  gl :: gl_state
  config :: config
  supportLinearFiltering :: bool
  canvas_width :: int
  canvas_height :: int
  lastTime :: int
  emitterPos :: "real \<times> real"
  currentColor :: "real \<times> real \<times> real"
  displayMaterial :: material

record audio_metrics =
  bass :: real
  mid :: real
  treble :: real
  volume :: real
  frequency :: "real option"

text \<open>
  What one call of \<open>update\<close> reads from outside: the three readings of \<open>Date.now()\<close>, the
  canvas's client size and the pixel ratio, and \<open>audioRef\<close>. A metrics object without a
  \<open>frequency\<close> (the one the application starts with) has \<open>frequency = None\<close>.
\<close>

record tick_input =
  now_dt :: int
  now_last :: int
  now_t :: int
  clientWidth :: real
  clientHeight :: real
  devicePixelRatio :: real
  metrics :: audio_metrics
  gain :: real

section \<open>Allocating and resizing the framebuffers\<close>

definition getResolution :: "int \<Rightarrow> int \<Rightarrow> real \<Rightarrow> int \<times> int" where
  "getResolution cw ch resolution =
     (let aspectRatio = of_int cw / of_int ch;
          aspectRatio = (if aspectRatio < 1 then 1.0 / aspectRatio else aspectRatio);
          mn = round resolution;
          mx = round (resolution * aspectRatio)
      in if cw > ch then (mx, mn) else (mn, mx))"

definition scaleByPixelRatio :: "real \<Rightarrow> real \<Rightarrow> int" where
  "scaleByPixelRatio ratio input =
     (let pixelRatio = (if ratio = 0 then 1 else ratio) in \<lfloor>input * pixelRatio\<rfloor>)"

definition filtering :: "bool \<Rightarrow> texfilter" where
  "filtering lin = (if lin then LINEAR else NEAREST)"

text \<open>
  The loop of \<open>initBloomFramebuffers\<close>: \<open>i\<close> is the loop counter, the fourth argument the
  iterations still allowed; \<open>break\<close> ends the list.
\<close>

fun bloom_levels :: "int \<Rightarrow> int \<Rightarrow> texfilter \<Rightarrow> nat \<Rightarrow> nat \<Rightarrow> gl_state \<Rightarrow> fbo list \<times> gl_state" where
  "bloom_levels rw rh param i 0 g = ([], g)"
| "bloom_levels rw rh param i (Suc k) g =
     (let w = js_sar rw (int i + 1);
          h = js_sar rh (int i + 1)
      in if w < 2 \<or> h < 2 then ([], g)
         else (case createFBO w h FormatRGBA param g of (f, g1) \<Rightarrow>
               case bloom_levels rw rh param (Suc i) k g1 of (fs, g2) \<Rightarrow> (f # fs, g2)))"

definition initBloomFramebuffers ::
  "config \<Rightarrow> bool \<Rightarrow> int \<Rightarrow> int \<Rightarrow> gl_state \<Rightarrow> (fbo \<times> fbo list) \<times> gl_state" where
  "initBloomFramebuffers c lin cw ch g =
     (case getResolution cw ch (BLOOM_RESOLUTION c) of (rw, rh) \<Rightarrow>
      case createFBO rw rh FormatRGBA (filtering lin) g of (b, g1) \<Rightarrow>
      case bloom_levels rw rh (filtering lin) 0 (BLOOM_ITERATIONS c) g1 of (fs, g2) \<Rightarrow>
        ((b, fs), g2))"

definition initSunraysFramebuffers ::
  "config \<Rightarrow> bool \<Rightarrow> int \<Rightarrow> int \<Rightarrow> gl_state \<Rightarrow> (fbo \<times> fbo) \<times> gl_state" where
  "initSunraysFramebuffers c lin cw ch g =
     (case getResolution cw ch (SUNRAYS_RESOLUTION c) of (rw, rh) \<Rightarrow>
      case createFBO rw rh FormatR (filtering lin) g of (s, g1) \<Rightarrow>
      case createFBO rw rh FormatR (filtering lin) g1 of (t, g2) \<Rightarrow>
        ((s, t), g2))"

text \<open>
  \<open>initFramebuffers\<close>: \<open>dye\<close> and \<open>velocity\<close> are created on the first call (\<open>None\<close>) and
  resized afterwards; every other target, the pressure pair included, is created anew.
\<close>

definition initFramebuffers ::
  "config \<Rightarrow> bool \<Rightarrow> int \<Rightarrow> int \<Rightarrow> double_fbo option \<Rightarrow> double_fbo option \<Rightarrow> gl_state
     \<Rightarrow> framebuffers \<times> gl_state" where
  "initFramebuffers c lin cw ch dye0 velocity0 g =
     (case getResolution cw ch (SIM_RESOLUTION c) of (sw, sh) \<Rightarrow>
      case getResolution cw ch (DYE_RESOLUTION c) of (dw, dh) \<Rightarrow>
      case (case dye0 of
              None \<Rightarrow> createDoubleFBO dw dh FormatRGBA (filtering lin) (g\<lparr>blend := False\<rparr>)
            | Some d \<Rightarrow> resizeDoubleFBO d dw dh FormatRGBA (filtering lin) (g\<lparr>blend := False\<rparr>))
        of (d, g1) \<Rightarrow>
      case (case velocity0 of
              None \<Rightarrow> createDoubleFBO sw sh FormatRG (filtering lin) g1
            | Some v \<Rightarrow> resizeDoubleFBO v sw sh FormatRG (filtering lin) g1)
        of (v, g2) \<Rightarrow>
      case createFBO sw sh FormatR NEAREST g2 of (dv, g3) \<Rightarrow>
      case createFBO sw sh FormatR NEAREST g3 of (cu, g4) \<Rightarrow>
      case createDoubleFBO sw sh FormatR NEAREST g4 of (pr, g5) \<Rightarrow>
      case initBloomFramebuffers c lin cw ch g5 of ((b, fs), g6) \<Rightarrow>
      case initSunraysFramebuffers c lin cw ch g6 of ((s, t), g7) \<Rightarrow>
        (\<lparr>dye = d, velocity = v, divergence = dv, curl = cu, pressure = pr, bloom = b,
           bloomFramebuffers = fs, sunrays = s, sunraysTemp = t\<rparr>, g7))"

section \<open>The shader-variant cache\<close>

text \<open>
  \<open>hashCode\<close>: the string's code units go through \<open>hash = (hash << 5) - hash + c\<close> and
  \<open>hash |= 0\<close>. Keywords are ASCII identifiers, so a character's byte is its code unit.
\<close>

fun hashCode_loop :: "int \<Rightarrow> string \<Rightarrow> int" where
  "hashCode_loop hash [] = hash"
| "hashCode_loop hash (c # s) = hashCode_loop (to_int32 (js_shl hash 5 - hash + of_char c)) s"

definition hashCode :: "string \<Rightarrow> int" where
  "hashCode s = (if length s = 0 then 0 else hashCode_loop 0 s)"

definition keywords_hash :: "string list \<Rightarrow> int" where
  "keywords_hash keywords = foldl (\<lambda>hash k. hash + hashCode k) 0 keywords"

text \<open>
  \<open>setKeywords\<close>: \<open>this.programs[hash]\<close> is looked up; when absent the fragment shader is
  compiled with the keywords and a new program object is linked and stored under the hash.
  The program becomes the active one unless it already is.
\<close>

definition setKeywords :: "string list \<Rightarrow> material \<times> gl_state \<Rightarrow> material \<times> gl_state" where
  "setKeywords keywords mg =
     (case mg of (m, g) \<Rightarrow>
      let hash = keywords_hash keywords in
      case (case programs m hash of
              None \<Rightarrow>
                (let p = MaterialProgram (next_program g) keywords
                 in (p, m\<lparr>programs := (programs m)(hash \<mapsto> p)\<rparr>,
                        g\<lparr>next_program := Suc (next_program g)\<rparr>))
            | Some p \<Rightarrow> (p, m, g))
        of (p, m1, g1) \<Rightarrow>
          if Some p = activeProgram m1 then (m1, g1)
          else (m1\<lparr>activeProgram := Some p\<rparr>, g1))"

definition new_Material :: material where
  "new_Material = \<lparr> programs = (\<lambda>_. None), activeProgram = None \<rparr>"

definition updateKeywords :: "config \<Rightarrow> material \<times> gl_state \<Rightarrow> material \<times> gl_state" where
  "updateKeywords c mg =
     setKeywords ((if SHADING c then [''SHADING''] else []) @
                  (if BLOOM c then [''BLOOM''] else []) @
                  (if SUNRAYS c then [''SUNRAYS''] else [])) mg"

definition material_bind :: "material \<Rightarrow> gl_state \<Rightarrow> gl_state" where
  "material_bind m g = (case activeProgram m of None \<Rightarrow> g | Some p \<Rightarrow> useProgram p g)"

text \<open>
  \<open>getUniforms\<close> lists the active uniforms of a program, those its shaders read.
  \<open>displayMaterial.uniforms\<close> holds their locations for the active program. With no
  active program the table is empty, and for a name that is not in the table the location
  is \<open>undefined\<close>: in both cases \<open>gl.uniform*\<close> sets nothing.
\<close>

definition getUniforms :: "program \<Rightarrow> string list" where
  "getUniforms p = params p @ samplers p"

definition material_uniform :: "material \<Rightarrow> string \<Rightarrow> uval \<Rightarrow> gl_state \<Rightarrow> gl_state" where
  "material_uniform m name v g =
     (case activeProgram m of
        None \<Rightarrow> g
      | Some p \<Rightarrow> if name \<in> set (getUniforms p) then uniform p name v g else g)"

section \<open>The emitter\<close>

definition hue2rgb :: "real \<Rightarrow> real \<Rightarrow> real \<Rightarrow> real" where
  "hue2rgb p q t0 =
     (let t1 = (if t0 < 0 then t0 + 1 else t0);
          t = (if t1 > 1 then t1 - 1 else t1)
      in if t < 1 / 6 then p + (q - p) * 6 * t
         else if t < 1 / 2 then q
         else if t < 2 / 3 then p + (q - p) * (2 / 3 - t) * 6
         else p)"

definition hslToRgb :: "real \<Rightarrow> real \<Rightarrow> real \<Rightarrow> real \<times> real \<times> real" where
  "hslToRgb h s l =
     (if s = 0 then (l, l, l)
      else (let q = (if l < 0.5 then l * (1 + s) else l + s - l * s);
                p = 2 * l - q
            in (hue2rgb p q (h + 1 / 3), hue2rgb p q h, hue2rgb p q (h - 1 / 3))))"

text \<open>\<open>metrics.frequency || 0\<close>, then the note, the chroma and the hue of \<open>update\<close>.\<close>

definition freq_of :: "audio_metrics \<Rightarrow> real" where
  "freq_of m = (case frequency m of None \<Rightarrow> 0 | Some f \<Rightarrow> f)"

definition note_of :: "real \<Rightarrow> real" where
  "note_of freq = 12 * log 2 (freq / 440) + 69"

definition chroma_of :: "real \<Rightarrow> real" where
  "chroma_of note = js_rem (js_rem note 12 + 12) 12"

definition targetHue :: "real \<Rightarrow> real" where
  "targetHue freq = (if freq > 20 then chroma_of (note_of freq) / 12.0 else 0)"

definition audio_volume :: "tick_input \<Rightarrow> real" where
  "audio_volume inp = volume (metrics inp) * gain inp"

definition emitter_t :: "tick_input \<Rightarrow> real" where
  "emitter_t inp = of_int (now_t inp) * 0.0005"

definition emitter_pass :: "tick_input \<Rightarrow> engine \<Rightarrow> engine" where
  "emitter_pass inp e =
     (let t = emitter_t inp
      in e\<lparr>emitterPos := (0.5 + sin t * 0.3, 0.5 + cos (t * 1.3) * 0.3)\<rparr>)"

definition color_pass :: "tick_input \<Rightarrow> engine \<Rightarrow> engine" where
  "color_pass inp e =
     (let freq = freq_of (metrics inp);
          targetRgb = hslToRgb (targetHue freq) 1.0 0.5;
          lerpSpeed = 0.1
      in case targetRgb of (tr, tg, tb) \<Rightarrow>
         case currentColor e of (r, g, b) \<Rightarrow>
           e\<lparr>currentColor := (r + (tr - r) * lerpSpeed, g + (tg - g) * lerpSpeed,
                                b + (tb - b) * lerpSpeed)\<rparr>)"

definition correctRadius :: "int \<Rightarrow> int \<Rightarrow> real \<Rightarrow> real" where
  "correctRadius cw ch radius =
     (let aspectRatio = of_int cw / of_int ch
      in if aspectRatio > 1 then radius * aspectRatio else radius)"

text \<open>\<open>splat\<close> draws twice: into the velocity pair, then into the dye pair.\<close>

definition splat_velocity_pass :: "tick_input \<Rightarrow> engine \<Rightarrow> engine" where
  "splat_velocity_pass inp e =
     (let t = emitter_t inp;
          dx = cos t * 100 * audio_volume inp;
          dy = - sin (t * 1.3) * 100 * audio_volume inp;
          g = useProgram SplatProgram (gl e);
          g = uniform SplatProgram ''uTarget'' (I 0) (attach (read (velocity e)) 0 g);
          g = uniform SplatProgram ''aspectRatio''
                (F (of_int (canvas_width e) / of_int (canvas_height e))) g;
          g = uniform SplatProgram ''point'' (V2 (fst (emitterPos e)) (snd (emitterPos e))) g;
          g = uniform SplatProgram ''color'' (V3 dx dy 0.0) g;
          g = uniform SplatProgram ''radius''
                (F (correctRadius (canvas_width e) (canvas_height e)
                      (SPLAT_RADIUS (config e) / 100.0))) g;
          g = blit (Some (write (velocity e))) False g
      in e\<lparr>gl := g, velocity := swap (velocity e)\<rparr>)"

definition splat_dye_pass :: "tick_input \<Rightarrow> engine \<Rightarrow> engine" where
  "splat_dye_pass inp e =
     (case currentColor e of (cr, cg, cb) \<Rightarrow>
      let r = cr * (1 + audio_volume inp);
          g' = cg * (1 + audio_volume inp);
          b = cb * (1 + audio_volume inp);
          g = uniform SplatProgram ''uTarget'' (I 0) (attach (read (dye e)) 0 (gl e));
          g = uniform SplatProgram ''color'' (V3 r g' b) g;
          g = blit (Some (write (dye e))) False g
      in e\<lparr>gl := g, dye := swap (dye e)\<rparr>)"

section \<open>The passes of one tick\<close>

definition update_dt :: "int \<Rightarrow> int \<Rightarrow> real" where
  "update_dt now lastT = min (of_int (now - lastT) / 1000) 0.016"

definition resize_pass :: "tick_input \<Rightarrow> engine \<Rightarrow> engine" where
  "resize_pass inp e =
     (let w = scaleByPixelRatio (devicePixelRatio inp) (clientWidth inp);
          h = scaleByPixelRatio (devicePixelRatio inp) (clientHeight inp)
      in if canvas_width e \<noteq> w \<or> canvas_height e \<noteq> h
         then (case initFramebuffers (config e) (supportLinearFiltering e) w h
                      (Some (dye e)) (Some (velocity e)) (gl e) of
                 (fb, g) \<Rightarrow>
                   e\<lparr>canvas_width := w, canvas_height := h, gl := g,
                     dye := dye fb, velocity := velocity fb, divergence := divergence fb,
                     curl := curl fb, pressure := pressure fb, bloom := bloom fb,
                     bloomFramebuffers := bloomFramebuffers fb, sunrays := sunrays fb,
                     sunraysTemp := sunraysTemp fb\<rparr>)
         else e)"

definition velocity_texel :: "engine \<Rightarrow> uval" where
  "velocity_texel e = V2 (dtexelSizeX (velocity e)) (dtexelSizeY (velocity e))"

definition curl_pass :: "engine \<Rightarrow> engine" where
  "curl_pass e =
     (let g = useProgram CurlProgram (gl e);
          g = uniform CurlProgram ''texelSize'' (velocity_texel e) g;
          g = uniform CurlProgram ''uVelocity'' (I 0) (attach (read (velocity e)) 0 g);
          g = blit (Some (curl e)) False g
      in e\<lparr>gl := g\<rparr>)"

definition vorticity_pass :: "real \<Rightarrow> engine \<Rightarrow> engine" where
  "vorticity_pass dt e =
     (let g = useProgram VorticityProgram (gl e);
          g = uniform VorticityProgram ''texelSize'' (velocity_texel e) g;
          g = uniform VorticityProgram ''uVelocity'' (I 0) (attach (read (velocity e)) 0 g);
          g = uniform VorticityProgram ''uCurl'' (I 1) (attach (curl e) 1 g);
          g = uniform VorticityProgram ''curl'' (F (CURL (config e))) g;
          g = uniform VorticityProgram ''dt'' (F dt) g;
          g = blit (Some (write (velocity e))) False g
      in e\<lparr>gl := g, velocity := swap (velocity e)\<rparr>)"

definition divergence_pass :: "engine \<Rightarrow> engine" where
  "divergence_pass e =
     (let g = useProgram DivergenceProgram (gl e);
          g = uniform DivergenceProgram ''texelSize'' (velocity_texel e) g;
          g = uniform DivergenceProgram ''uVelocity'' (I 0) (attach (read (velocity e)) 0 g);
          g = blit (Some (divergence e)) False g
      in e\<lparr>gl := g\<rparr>)"

definition clear_pressure_pass :: "engine \<Rightarrow> engine" where
  "clear_pressure_pass e =
     (let g = useProgram ClearProgram (gl e);
          g = uniform ClearProgram ''uTexture'' (I 0) (attach (read (pressure e)) 0 g);
          g = uniform ClearProgram ''value'' (F (PRESSURE (config e))) g;
          g = blit (Some (write (pressure e))) False g
      in e\<lparr>gl := g, pressure := swap (pressure e)\<rparr>)"

text \<open>The pressure solve: the program and the divergence are bound once, before the loop.\<close>

definition pressure_bind_pass :: "engine \<Rightarrow> engine" where
  "pressure_bind_pass e =
     (let g = useProgram PressureProgram (gl e);
          g = uniform PressureProgram ''texelSize'' (velocity_texel e) g;
          g = uniform PressureProgram ''uDivergence'' (I 0) (attach (divergence e) 0 g)
      in e\<lparr>gl := g\<rparr>)"

definition pressure_iteration :: "engine \<Rightarrow> engine" where
  "pressure_iteration e =
     (let g = uniform PressureProgram ''uPressure'' (I 1) (attach (read (pressure e)) 1 (gl e));
          g = blit (Some (write (pressure e))) False g
      in e\<lparr>gl := g, pressure := swap (pressure e)\<rparr>)"

definition gradient_subtract_pass :: "engine \<Rightarrow> engine" where
  "gradient_subtract_pass e =
     (let g = useProgram GradienSubtractProgram (gl e);
          g = uniform GradienSubtractProgram ''texelSize'' (velocity_texel e) g;
          g = uniform GradienSubtractProgram ''uPressure'' (I 0) (attach (read (pressure e)) 0 g);
          g = uniform GradienSubtractProgram ''uVelocity'' (I 1) (attach (read (velocity e)) 1 g);
          g = blit (Some (write (velocity e))) False g
      in e\<lparr>gl := g, velocity := swap (velocity e)\<rparr>)"

definition advect_velocity_pass :: "real \<Rightarrow> engine \<Rightarrow> engine" where
  "advect_velocity_pass dt e =
     (let g = useProgram AdvectionProgram (gl e);
          g = uniform AdvectionProgram ''texelSize'' (velocity_texel e) g;
          g = (if \<not> supportLinearFiltering e
               then uniform AdvectionProgram ''dyeTexelSize'' (velocity_texel e) g else g);
          g = attach (read (velocity e)) 0 g;
          velocityId = 0;
          g = uniform AdvectionProgram ''uVelocity'' (I velocityId) g;
          g = uniform AdvectionProgram ''uSource'' (I velocityId) g;
          g = uniform AdvectionProgram ''dt'' (F dt) g;
          g = uniform AdvectionProgram ''dissipation'' (F (VELOCITY_DISSIPATION (config e))) g;
          g = blit (Some (write (velocity e))) False g
      in e\<lparr>gl := g, velocity := swap (velocity e)\<rparr>)"

definition advect_dye_pass :: "engine \<Rightarrow> engine" where
  "advect_dye_pass e =
     (let g = (if \<not> supportLinearFiltering e
               then uniform AdvectionProgram ''dyeTexelSize''
                      (V2 (dtexelSizeX (dye e)) (dtexelSizeY (dye e))) (gl e)
               else gl e);
          g = uniform AdvectionProgram ''uVelocity'' (I 0) (attach (read (velocity e)) 0 g);
          g = uniform AdvectionProgram ''uSource'' (I 1) (attach (read (dye e)) 1 g);
          g = uniform AdvectionProgram ''dissipation'' (F (DENSITY_DISSIPATION (config e))) g;
          g = blit (Some (write (dye e))) False g
      in e\<lparr>gl := g, dye := swap (dye e)\<rparr>)"

section \<open>Post-processing and display\<close>

text \<open>
  The two loops of \<open>applyBloom\<close> have the same body: sample \<open>last\<close>, draw into the next
  level, which becomes \<open>last\<close>. The first runs down the chain, the second back up from
  the last but one level.
\<close>

fun bloom_chain :: "fbo list \<Rightarrow> fbo \<Rightarrow> gl_state \<Rightarrow> fbo \<times> gl_state" where
  "bloom_chain [] lastFBO g = (lastFBO, g)"
| "bloom_chain (dest # rest) lastFBO g =
     (let g1 = uniform BloomBlurProgram ''texelSize'' (V2 (texelSizeX lastFBO) (texelSizeY lastFBO)) g;
          g2 = uniform BloomBlurProgram ''uTexture'' (I 0) (attach lastFBO 0 g1);
          g3 = blit (Some dest) False g2
      in bloom_chain rest dest g3)"

definition applyBloom :: "config \<Rightarrow> fbo list \<Rightarrow> fbo \<Rightarrow> fbo \<Rightarrow> gl_state \<Rightarrow> gl_state" where
  "applyBloom c fbs source destination g =
     (if length fbs < 2 then g
      else
        (let g = useProgram BloomPrefilterProgram (g\<lparr>blend := False\<rparr>);
             knee = BLOOM_THRESHOLD c * BLOOM_SOFT_KNEE c + 0.0001;
             curve0 = BLOOM_THRESHOLD c - knee;
             curve1 = knee * 2;
             curve2 = 0.25 / knee;
             g = uniform BloomPrefilterProgram ''curve'' (V3 curve0 curve1 curve2) g;
             g = uniform BloomPrefilterProgram ''threshold'' (F (BLOOM_THRESHOLD c)) g;
             g = uniform BloomPrefilterProgram ''uTexture'' (I 0) (attach source 0 g);
             g = blit (Some destination) False g;
             g = useProgram BloomBlurProgram g
         in case bloom_chain fbs destination g of (lastFBO, g) \<Rightarrow>
            case bloom_chain (rev (butlast fbs)) lastFBO (g\<lparr>blend := True\<rparr>) of (lastFBO, g) \<Rightarrow>
              (let g = useProgram BloomFinalProgram (g\<lparr>blend := False\<rparr>);
                   g = uniform BloomFinalProgram ''texelSize''
                         (V2 (texelSizeX lastFBO) (texelSizeY lastFBO)) g;
                   g = uniform BloomFinalProgram ''uTexture'' (I 0) (attach lastFBO 0 g);
                   g = uniform BloomFinalProgram ''intensity'' (F (BLOOM_INTENSITY c)) g
               in blit (Some destination) False g)))"

definition bloom_pass :: "engine \<Rightarrow> engine" where
  "bloom_pass e =
     e\<lparr>gl := applyBloom (config e) (bloomFramebuffers e) (read (dye e)) (bloom e) (gl e)\<rparr>"

definition applySunrays :: "config \<Rightarrow> fbo \<Rightarrow> fbo \<Rightarrow> fbo \<Rightarrow> gl_state \<Rightarrow> gl_state" where
  "applySunrays c source maskFBO destination g =
     (let g = useProgram SunraysMaskProgram (g\<lparr>blend := False\<rparr>);
          g = uniform SunraysMaskProgram ''uTexture'' (I 0) (attach source 0 g);
          g = blit (Some maskFBO) False g;
          g = useProgram SunraysProgram g;
          g = uniform SunraysProgram ''weight'' (F (SUNRAYS_WEIGHT c)) g;
          g = uniform SunraysProgram ''uTexture'' (I 0) (attach maskFBO 0 g)
      in blit (Some destination) False g)"

fun blur_loop :: "fbo \<Rightarrow> fbo \<Rightarrow> nat \<Rightarrow> gl_state \<Rightarrow> gl_state" where
  "blur_loop target temp 0 g = g"
| "blur_loop target temp (Suc k) g =
     (let g1 = uniform BlurProgram ''texelSize'' (V2 (texelSizeX target) 0.0) g;
          g2 = uniform BlurProgram ''uTexture'' (I 0) (attach target 0 g1);
          g3 = blit (Some temp) False g2;
          g4 = uniform BlurProgram ''texelSize'' (V2 0.0 (texelSizeY target)) g3;
          g5 = uniform BlurProgram ''uTexture'' (I 0) (attach temp 0 g4);
          g6 = blit (Some target) False g5
      in blur_loop target temp k g6)"

definition blur :: "fbo \<Rightarrow> fbo \<Rightarrow> nat \<Rightarrow> gl_state \<Rightarrow> gl_state" where
  "blur target temp iterations g = blur_loop target temp iterations (useProgram BlurProgram g)"

definition sunrays_pass :: "engine \<Rightarrow> engine" where
  "sunrays_pass e =
     e\<lparr>gl := blur (sunrays e) (sunraysTemp e) 1
               (applySunrays (config e) (read (dye e)) (write (dye e)) (sunrays e) (gl e))\<rparr>"

definition display_pass :: "engine \<Rightarrow> engine" where
  "display_pass e =
     (let m = displayMaterial e;
          g = material_bind m (gl e);
          g = (if SHADING (config e)
               then material_uniform m ''texelSize''
                      (V2 (1.0 / of_int (canvas_width e)) (1.0 / of_int (canvas_height e))) g
               else g);
          g = material_uniform m ''uTexture'' (I 0) (attach (read (dye e)) 0 g);
          g = (if BLOOM (config e)
               then material_uniform m ''uDithering'' (I 2)
                      (material_uniform m ''uBloom'' (I 1) (attach (bloom e) 1 g))
               else g);
          g = (if SUNRAYS (config e)
               then material_uniform m ''uSunrays'' (I 3) (attach (sunrays e) 3 g)
               else g)
      in e\<lparr>gl := blit None False g\<rparr>)"

section \<open>The tick\<close>

text \<open>
  \<open>update\<close> as the list of its passes, in the order of the source. The splat is issued only
  when \<open>volume > 0.01\<close>; the pressure iteration is repeated \<open>PRESSURE_ITERATIONS\<close> times.
\<close>

definition emitter_passes :: "tick_input \<Rightarrow> (engine \<Rightarrow> engine) list" where
  "emitter_passes inp =
     emitter_pass inp #
     (if audio_volume inp > 0.01
      then [color_pass inp, splat_velocity_pass inp, splat_dye_pass inp] else [])"

definition pressure_passes :: "config \<Rightarrow> (engine \<Rightarrow> engine) list" where
  "pressure_passes c =
     clear_pressure_pass # pressure_bind_pass # replicate (PRESSURE_ITERATIONS c) pressure_iteration"

definition post_passes :: "config \<Rightarrow> (engine \<Rightarrow> engine) list" where
  "post_passes c =
     (if BLOOM c then [bloom_pass] else []) @ (if SUNRAYS c then [sunrays_pass] else []) @
     [display_pass]"

definition update_passes :: "config \<Rightarrow> tick_input \<Rightarrow> real \<Rightarrow> (engine \<Rightarrow> engine) list" where
  "update_passes c inp dt =
     resize_pass inp # emitter_passes inp @
     [curl_pass, vorticity_pass dt, divergence_pass] @
     pressure_passes c @
     [gradient_subtract_pass, advect_velocity_pass dt, advect_dye_pass] @
     post_passes c"

definition run_passes :: "(engine \<Rightarrow> engine) list \<Rightarrow> engine \<Rightarrow> engine" where
  "run_passes fs e = foldl (\<lambda>e f. f e) e fs"

definition update :: "tick_input \<Rightarrow> engine \<Rightarrow> engine" where
  "update inp e =
     (let dt = update_dt (now_dt inp) (lastTime e)
      in run_passes (update_passes (config e) inp dt) (e\<lparr>lastTime := now_last inp\<rparr>))"

text \<open>
  The set-up in the order of the source: the context, the configuration, the display
  material with its keywords, the framebuffers for the canvas's first size.
\<close>

definition startup :: "config \<Rightarrow> bool \<Rightarrow> int \<Rightarrow> int \<Rightarrow> int \<Rightarrow> engine" where
  "startup c0 lin cw ch now =
     (let c = configure lin c0 in
      case updateKeywords c (new_Material, getWebGLContext) of (m, g) \<Rightarrow>
      case initFramebuffers c lin cw ch None None g of (fb, g') \<Rightarrow>
        \<lparr>dye = dye fb, velocity = velocity fb, divergence = divergence fb, curl = curl fb,
          pressure = pressure fb, bloom = bloom fb, bloomFramebuffers = bloomFramebuffers fb,
          sunrays = sunrays fb, sunraysTemp = sunraysTemp fb,
          gl = g', config = c, supportLinearFiltering = lin, canvas_width = cw,
          canvas_height = ch, lastTime = now, emitterPos = (0.5, 0.5),
          currentColor = (0, 0, 0), displayMaterial = m\<rparr>)"

fun run :: "tick_input list \<Rightarrow> engine \<Rightarrow> engine" where
  "run [] e = e"
| "run (inp # rest) e = run rest (update inp e)"

section \<open>Invariants of the engine\<close>

text \<open>
  The predicates below state what holds of the engine between passes. They are used in
  the statements and proofs that follow; none of them is part of the program.
\<close>

text \<open>The read and the write buffer of each simulation field are different textures.\<close>

definition targets_distinct :: "engine \<Rightarrow> bool" where
  "targets_distinct e =
     (texture (read (velocity e)) \<noteq> texture (write (velocity e)) \<and>
      texture (read (dye e)) \<noteq> texture (write (dye e)) \<and>
      texture (read (pressure e)) \<noteq> texture (write (pressure e)))"

text \<open>
  All render targets the engine holds, in the order \<open>initFramebuffers\<close> allocates them.
  They are well formed when no two share a texture and every texture has been allocated.
\<close>

definition all_targets :: "'a framebuffers_scheme \<Rightarrow> fbo list" where
  "all_targets e =
     [read (dye e), write (dye e), read (velocity e), write (velocity e), divergence e, curl e,
      read (pressure e), write (pressure e), bloom e] @
     bloomFramebuffers e @ [sunrays e, sunraysTemp e]"

definition wf_targets :: "nat \<Rightarrow> fbo list \<Rightarrow> bool" where
  "wf_targets n fs = (distinct (map texture fs) \<and> list_all (\<lambda>f. texture f < n) fs)"

definition wf :: "engine \<Rightarrow> bool" where
  "wf e = wf_targets (next_texture (gl e)) (all_targets e)"

definition old_targets :: "double_fbo option \<Rightarrow> double_fbo option \<Rightarrow> fbo list" where
  "old_targets dye0 velocity0 =
     (case dye0 of None \<Rightarrow> [] | Some d \<Rightarrow> [read d, write d]) @
     (case velocity0 of None \<Rightarrow> [] | Some v \<Rightarrow> [read v, write v])"

text \<open>The draw calls issued with the splat program, oldest first.\<close>

definition splat_draws :: "gl_state \<Rightarrow> (program option \<times> nat option) list" where
  "splat_draws g = filter (\<lambda>d. fst d = Some SplatProgram) (draws g)"

text \<open>
  What allocation does to the context: textures are only added, the images of the
  textures that existed stay, and no splat is drawn.
\<close>

definition grows :: "gl_state \<Rightarrow> gl_state \<Rightarrow> bool" where
  "grows g g' = (next_texture g \<le> next_texture g' \<and> clearColor g' = clearColor g \<and>
     next_program g' = next_program g \<and> splat_draws g' = splat_draws g \<and>
     (\<forall>x < next_texture g. pixels g' x = pixels g x))"

fun is_material :: "program option \<Rightarrow> bool" where
  "is_material (Some (MaterialProgram n kws)) = True"
| "is_material _ = False"

text \<open>
  With fewer than two bloom levels the bloom target still holds what \<open>createFBO\<close>
  cleared it to.
\<close>

definition bloom_idle :: "engine \<Rightarrow> bool" where
  "bloom_idle e =
     (2 \<le> length (bloomFramebuffers e) \<or>
      pixels (gl e) (texture (bloom e)) = Cleared (clearColor (gl e)))"

text \<open>
  The invariant of the running engine: the targets are well formed, blending is off, the
  clear colour is the one of the set-up, and the display material has an active program.
\<close>

definition inv :: "engine \<Rightarrow> bool" where
  "inv e = (wf e \<and> blend (gl e) = False \<and> clearColor (gl e) = (0, 0, 0, 1) \<and>
            is_material (activeProgram (displayMaterial e)) \<and> bloom_idle e)"

text \<open>What every pass but the resize leaves as it is.\<close>

definition same_frame :: "engine \<Rightarrow> engine \<Rightarrow> bool" where
  "same_frame e e' =
     (config e' = config e \<and> supportLinearFiltering e' = supportLinearFiltering e \<and>
      displayMaterial e' = displayMaterial e \<and> canvas_width e' = canvas_width e \<and>
      canvas_height e' = canvas_height e \<and> bloom e' = bloom e \<and>
      bloomFramebuffers e' = bloomFramebuffers e \<and> divergence e' = divergence e \<and>
      curl e' = curl e \<and> sunrays e' = sunrays e \<and> sunraysTemp e' = sunraysTemp e \<and>
      lastTime e' = lastTime e \<and> next_texture (gl e') = next_texture (gl e) \<and>
      clearColor (gl e') = clearColor (gl e) \<and> next_program (gl e') = next_program (gl e))"

text \<open>The tick begins with a resize when the canvas does not have the scaled client size.\<close>

definition resized :: "tick_input \<Rightarrow> engine \<Rightarrow> bool" where
  "resized inp e =
     (canvas_width e \<noteq> scaleByPixelRatio (devicePixelRatio inp) (clientWidth inp) \<or>
      canvas_height e \<noteq> scaleByPixelRatio (devicePixelRatio inp) (clientHeight inp))"

subsection \<open>The pressure field\<close>

text \<open>
  The image of the pressure read buffer and of the divergence target; the image the
  clear program draws from the pressure read buffer (each texel times \<open>value\<close>); the image
  one draw of the pressure program produces from an estimate \<open>p\<close> and the divergence.
\<close>

definition pressure_px :: "engine \<Rightarrow> content" where
  "pressure_px e = pixels (gl e) (texture (read (pressure e)))"

definition divergence_px :: "engine \<Rightarrow> content" where
  "divergence_px e = pixels (gl e) (texture (divergence e))"

definition decayed :: "engine \<Rightarrow> content" where
  "decayed e =
     Shaded ClearProgram
       [uniforms (gl e) ClearProgram ''texelSize'', Some (F (PRESSURE (config e)))]
       [pressure_px e]"

definition jacobi_draw :: "engine \<Rightarrow> content \<Rightarrow> content" where
  "jacobi_draw e p = Shaded PressureProgram [Some (velocity_texel e)] [p, divergence_px e]"

text \<open>The engine when the pressure passes of a tick begin.\<close>

definition before_pressure :: "tick_input \<Rightarrow> real \<Rightarrow> engine \<Rightarrow> engine" where
  "before_pressure inp dt e =
     run_passes (resize_pass inp # emitter_passes inp @
                 [curl_pass, vorticity_pass dt, divergence_pass]) e"

text \<open>Passes that leave the pressure pair and the image of its read buffer alone.\<close>

definition keeps_pressure :: "(engine \<Rightarrow> engine) \<Rightarrow> bool" where
  "keeps_pressure f =
     (\<forall>e. inv e \<longrightarrow> inv (f e) \<and> pressure (f e) = pressure e \<and> pressure_px (f e) = pressure_px e
        \<and> config (f e) = config e)"

text \<open>The state in which the pressure loop runs: program, divergence and texel size bound.\<close>

definition loop_ready :: "uval \<Rightarrow> content \<Rightarrow> engine \<Rightarrow> bool" where
  "loop_ready t D e =
     (inv e \<and> program (gl e) = Some PressureProgram \<and>
      uniforms (gl e) PressureProgram ''texelSize'' = Some t \<and>
      uniforms (gl e) PressureProgram ''uDivergence'' = Some (I 0) \<and>
      units (gl e) 0 = Some (texture (divergence e)) \<and> divergence_px e = D)"

subsection \<open>Example inputs\<close>

text \<open>A tick at time \<open>now\<close> with a silent audio frame and the given client size.\<close>

definition tick_at :: "real \<Rightarrow> real \<Rightarrow> int \<Rightarrow> tick_input" where
  "tick_at w h now =
     \<lparr>now_dt = now, now_last = now, now_t = now, clientWidth = w, clientHeight = h,
      devicePixelRatio = 1,
      metrics = \<lparr>bass = 0, mid = 0, treble = 0, volume = 0, frequency = Some 0\<rparr>,
      gain = 1.5\<rparr>"

text \<open>
  Passes that draw no splat and leave the emitter's colour, when they start with a
  program other than the splat program in use.
\<close>

definition quiet_pass :: "(engine \<Rightarrow> engine) \<Rightarrow> bool" where
  "quiet_pass f =
     (\<forall>e. inv e \<and> program (gl e) \<noteq> Some SplatProgram \<longrightarrow>
        inv (f e) \<and> program (gl (f e)) \<noteq> Some SplatProgram \<and>
        splat_draws (gl (f e)) = splat_draws (gl e) \<and> currentColor (f e) = currentColor e)"

text \<open>
  Configurations for the examples: one bloom iteration only, the same without shading,
  and a bloom base resolution of 8.
\<close>

definition one_level_config :: config where
  "one_level_config = default_config\<lparr>BLOOM_ITERATIONS := 1\<rparr>"

definition unshaded_config :: config where
  "unshaded_config = default_config\<lparr>BLOOM_ITERATIONS := 1, SHADING := False\<rparr>"

definition small_bloom_config :: config where
  "small_bloom_config = default_config\<lparr>BLOOM_RESOLUTION := 8\<rparr>"

section \<open>Lemmas about the graphics context and the passes\<close>

lemma useProgram_fields [simp]:
  "next_texture (useProgram p g) = next_texture g" "pixels (useProgram p g) = pixels g"
  "units (useProgram p g) = units g" "program (useProgram p g) = Some p"
  "uniforms (useProgram p g) = uniforms g" "blend (useProgram p g) = blend g"
  "clearColor (useProgram p g) = clearColor g" "screen (useProgram p g) = screen g"
  "draws (useProgram p g) = draws g" "texinfo (useProgram p g) = texinfo g"
  "next_program (useProgram p g) = next_program g"
  by (simp_all add: useProgram_def)

lemma uniform_fields [simp]:
  "next_texture (uniform p n v g) = next_texture g" "pixels (uniform p n v g) = pixels g"
  "units (uniform p n v g) = units g" "program (uniform p n v g) = program g"
  "blend (uniform p n v g) = blend g"
  "clearColor (uniform p n v g) = clearColor g" "screen (uniform p n v g) = screen g"
  "draws (uniform p n v g) = draws g" "texinfo (uniform p n v g) = texinfo g"
  "next_program (uniform p n v g) = next_program g"
  by (simp_all add: uniform_def)

lemma uniform_uniforms:
  "uniforms (uniform p n v g) =
     (if program g = Some p then (uniforms g)(p := (uniforms g p)(n \<mapsto> v)) else uniforms g)"
  by (simp add: uniform_def)

lemma attach_fields [simp]:
  "next_texture (attach f u g) = next_texture g" "pixels (attach f u g) = pixels g"
  "units (attach f u g) = (units g)(u \<mapsto> texture f)" "program (attach f u g) = program g"
  "uniforms (attach f u g) = uniforms g" "blend (attach f u g) = blend g"
  "clearColor (attach f u g) = clearColor g" "screen (attach f u g) = screen g"
  "draws (attach f u g) = draws g" "texinfo (attach f u g) = texinfo g"
  "next_program (attach f u g) = next_program g"
  by (simp_all add: attach_def)

lemma blit_fields [simp]:
  "next_texture (blit t False g) = next_texture g"
  "units (blit t False g) = units g" "program (blit t False g) = program g"
  "uniforms (blit t False g) = uniforms g" "blend (blit t False g) = blend g"
  "clearColor (blit t False g) = clearColor g" "texinfo (blit t False g) = texinfo g"
  "next_program (blit t False g) = next_program g"
  by (simp_all add: blit_def write_target_def Let_def split: option.splits)

lemma blit_pixels:
  "pixels (blit (Some f) False g) =
     (case program g of None \<Rightarrow> pixels g
      | Some p \<Rightarrow> (pixels g)(texture f :=
          (if blend g then Blend (pixels g (texture f)) (shade g p) else shade g p)))"
  "pixels (blit None False g) = pixels g"
  by (simp_all add: blit_def write_target_def target_pixels_def Let_def split: option.splits)

lemma blit_pixels_other [simp]:
  "x \<noteq> texture f \<Longrightarrow> pixels (blit (Some f) False g) x = pixels g x"
  "pixels (blit None False g) x = pixels g x"
  by (simp_all add: blit_pixels split: option.splits)

lemma blit_draws:
  "draws (blit t False g) =
     (case program g of None \<Rightarrow> draws g | Some p \<Rightarrow> draws g @ [(Some p, map_option texture t)])"
  by (simp add: blit_def write_target_def Let_def split: option.splits)

lemma blit_screen_target [simp]: "screen (blit (Some f) False g) = screen g"
  by (simp add: blit_def write_target_def target_pixels_def Let_def split: option.splits)

lemma blit_screen:
  "screen (blit None False g) =
     (case program g of None \<Rightarrow> screen g
      | Some p \<Rightarrow> (if blend g then Blend (screen g) (shade g p) else shade g p))"
  by (simp add: blit_def write_target_def target_pixels_def Let_def split: option.splits)

lemma createFBO_result:
  "createFBO w h fmt param g = (f, g') \<Longrightarrow>
     texture f = next_texture g \<and> width f = w \<and> height f = h \<and>
     texelSizeX f = 1 / of_int w \<and> texelSizeY f = 1 / of_int h \<and>
     next_texture g' = Suc (next_texture g) \<and>
     pixels g' = (pixels g)(next_texture g := Cleared (clearColor g)) \<and>
     program g' = program g \<and> uniforms g' = uniforms g \<and> blend g' = blend g \<and>
     clearColor g' = clearColor g \<and> screen g' = screen g \<and> draws g' = draws g \<and>
     next_program g' = next_program g \<and> units g' = (units g)(0 \<mapsto> next_texture g)"
  by (auto simp: createFBO_def Let_def)

lemma swap_fields [simp]:
  "read (swap d) = write d" "write (swap d) = read d" "dwidth (swap d) = dwidth d"
  "dheight (swap d) = dheight d" "dtexelSizeX (swap d) = dtexelSizeX d" "dtexelSizeY (swap d) = dtexelSizeY d"
  by (simp_all add: swap_def)

lemma createDoubleFBO_result:
  assumes "createDoubleFBO w h fmt param g = (d, g')"
  shows "texture (read d) = next_texture g" "texture (write d) = Suc (next_texture g)"
    "next_texture g' = Suc (Suc (next_texture g))" "dwidth d = w" "dheight d = h"
    "pixels g' = (pixels g)(next_texture g := Cleared (clearColor g), Suc (next_texture g) := Cleared (clearColor g))"
    "program g' = program g" "uniforms g' = uniforms g" "blend g' = blend g"
    "clearColor g' = clearColor g" "screen g' = screen g" "draws g' = draws g"
    "next_program g' = next_program g"
  using assms
  by (auto simp: createDoubleFBO_def createFBO_def Let_def)

lemma resizeFBO_result:
  assumes "resizeFBO t w h fmt param g = (f, g')"
  shows "texture f = next_texture g" "width f = w" "height f = h"
    "next_texture g' = Suc (next_texture g)" "blend g' = blend g" "clearColor g' = clearColor g"
    "program g' = Some CopyProgram" "screen g' = screen g"
    "draws g' = draws g @ [(Some CopyProgram, Some (next_texture g))]"
    "next_program g' = next_program g"
    "x \<noteq> next_texture g \<Longrightarrow> pixels g' x = pixels g x"
  using assms
  by (auto simp: resizeFBO_def createFBO_def Let_def blit_draws)

lemma resizeDoubleFBO_distinct:
  assumes "resizeDoubleFBO t w h fmt param g = (d, g')"
    and "texture (read t) \<noteq> texture (write t)"
  shows "texture (read d) \<noteq> texture (write d)"
proof (cases "dwidth t = w \<and> dheight t = h")
  case True
  with assms show ?thesis by (simp add: resizeDoubleFBO_def)
next
  case False
  obtain r g1 where r: "resizeFBO (read t) w h fmt param g = (r, g1)"
    by (cases "resizeFBO (read t) w h fmt param g") auto
  obtain wr g2 where wr: "createFBO w h fmt param g1 = (wr, g2)"
    by (cases "createFBO w h fmt param g1") auto
  from assms(1) False r wr have "read d = r" "write d = wr"
    by (auto simp: resizeDoubleFBO_def)
  with resizeFBO_result(1,4) [OF r] createFBO_result [OF wr] show ?thesis by simp
qed

lemma run_passes_simps [simp]:
  "run_passes [] e = e" "run_passes (f # fs) e = run_passes fs (f e)"
  "run_passes (fs @ gs) e = run_passes gs (run_passes fs e)"
  by (simp_all add: run_passes_def)

lemma run_passes_replicate: "run_passes (replicate n f) e = (f ^^ n) e"
  by (induction n arbitrary: e) (simp_all add: funpow_swap1)

lemma run_passes_invariant:
  assumes "\<And>f e. f \<in> set fs \<Longrightarrow> P e \<Longrightarrow> P (f e)" and "P e"
  shows "P (run_passes fs e)"
  using assms by (induction fs arbitrary: e) auto

lemma bloom_chain_fields:
  "next_texture (snd (bloom_chain fbs l g)) = next_texture g"
  "clearColor (snd (bloom_chain fbs l g)) = clearColor g"
  "next_program (snd (bloom_chain fbs l g)) = next_program g"
  "program (snd (bloom_chain fbs l g)) = program g"
  "blend (snd (bloom_chain fbs l g)) = blend g"
  "screen (snd (bloom_chain fbs l g)) = screen g"
  by (induction fbs arbitrary: l g; simp add: Let_def)+

lemma bloom_chain_pixels:
  "x \<notin> texture ` set fbs \<Longrightarrow> pixels (snd (bloom_chain fbs l g)) x = pixels g x"
  by (induction fbs arbitrary: l g) (auto simp: Let_def)

lemma blur_loop_fields:
  "next_texture (blur_loop t tmp n g) = next_texture g"
  "clearColor (blur_loop t tmp n g) = clearColor g"
  "next_program (blur_loop t tmp n g) = next_program g"
  "program (blur_loop t tmp n g) = program g"
  "blend (blur_loop t tmp n g) = blend g"
  "screen (blur_loop t tmp n g) = screen g"
  by (induction n arbitrary: g; simp add: Let_def)+

lemma blur_loop_pixels:
  "x \<noteq> texture t \<Longrightarrow> x \<noteq> texture tmp \<Longrightarrow> pixels (blur_loop t tmp n g) x = pixels g x"
  by (induction n arbitrary: g) (auto simp: Let_def)

lemma applyBloom_fields:
  "next_texture (applyBloom c fbs s d g) = next_texture g"
  "clearColor (applyBloom c fbs s d g) = clearColor g"
  "next_program (applyBloom c fbs s d g) = next_program g"
  "screen (applyBloom c fbs s d g) = screen g"
  by (simp_all add: applyBloom_def Let_def bloom_chain_fields split_beta)

lemma applySunrays_fields:
  "next_texture (applySunrays c s m d g) = next_texture g"
  "clearColor (applySunrays c s m d g) = clearColor g"
  "next_program (applySunrays c s m d g) = next_program g"
  "screen (applySunrays c s m d g) = screen g"
  "blend (applySunrays c s m d g) = False"
  "program (applySunrays c s m d g) = Some SunraysProgram"
  by (simp_all add: applySunrays_def Let_def)

lemma blur_fields:
  "next_texture (blur t tmp n g) = next_texture g"
  "clearColor (blur t tmp n g) = clearColor g"
  "next_program (blur t tmp n g) = next_program g"
  "screen (blur t tmp n g) = screen g"
  "blend (blur t tmp n g) = blend g"
  "program (blur t tmp n g) = Some BlurProgram"
  by (simp_all add: blur_def blur_loop_fields)

lemma material_fields [simp]:
  "next_texture (material_bind m g) = next_texture g"
  "clearColor (material_bind m g) = clearColor g"
  "pixels (material_bind m g) = pixels g"
  "blend (material_bind m g) = blend g"
  "draws (material_bind m g) = draws g"
  "units (material_bind m g) = units g"
  "uniforms (material_bind m g) = uniforms g"
  "next_texture (material_uniform m n v g) = next_texture g"
  "clearColor (material_uniform m n v g) = clearColor g"
  "pixels (material_uniform m n v g) = pixels g"
  "blend (material_uniform m n v g) = blend g"
  "draws (material_uniform m n v g) = draws g"
  "units (material_uniform m n v g) = units g"
  "program (material_uniform m n v g) = program g"
  "next_program (material_bind m g) = next_program g"
  "next_program (material_uniform m n v g) = next_program g"
  "screen (material_bind m g) = screen g"
  "screen (material_uniform m n v g) = screen g"
  by (simp_all add: material_bind_def material_uniform_def split: option.splits)

lemmas pass_defs = emitter_pass_def color_pass_def splat_velocity_pass_def splat_dye_pass_def
  curl_pass_def vorticity_pass_def divergence_pass_def clear_pressure_pass_def
  pressure_bind_pass_def pressure_iteration_def gradient_subtract_pass_def
  advect_velocity_pass_def advect_dye_pass_def bloom_pass_def sunrays_pass_def display_pass_def

lemma wf_passes:
  "wf e \<Longrightarrow> wf (emitter_pass inp e)"
  "wf e \<Longrightarrow> wf (color_pass inp e)"
  "wf e \<Longrightarrow> wf (splat_velocity_pass inp e)"
  "wf e \<Longrightarrow> wf (splat_dye_pass inp e)"
  "wf e \<Longrightarrow> wf (curl_pass e)"
  "wf e \<Longrightarrow> wf (vorticity_pass dt e)"
  "wf e \<Longrightarrow> wf (divergence_pass e)"
  "wf e \<Longrightarrow> wf (clear_pressure_pass e)"
  "wf e \<Longrightarrow> wf (pressure_bind_pass e)"
  "wf e \<Longrightarrow> wf (pressure_iteration e)"
  "wf e \<Longrightarrow> wf (gradient_subtract_pass e)"
  "wf e \<Longrightarrow> wf (advect_velocity_pass dt e)"
  "wf e \<Longrightarrow> wf (advect_dye_pass e)"
  "wf e \<Longrightarrow> wf (bloom_pass e)"
  "wf e \<Longrightarrow> wf (sunrays_pass e)"
  "wf e \<Longrightarrow> wf (display_pass e)"
  by (auto simp: wf_def wf_targets_def all_targets_def pass_defs Let_def applyBloom_fields
      applySunrays_fields blur_fields split: prod.splits)

lemma grows_refl [simp]: "grows g g"
  by (simp add: grows_def)

lemma grows_trans: "grows g g1 \<Longrightarrow> grows g1 g2 \<Longrightarrow> grows g g2"
  by (auto simp: grows_def)

lemma grows_splat_draws: "grows g g' \<Longrightarrow> splat_draws g' = splat_draws g"
  by (simp add: grows_def)

lemma createFBO_grows:
  "createFBO w h fmt param g = (f, g') \<Longrightarrow> grows g g'"
  by (auto simp: createFBO_def Let_def grows_def splat_draws_def)

lemma createDoubleFBO_grows:
  "createDoubleFBO w h fmt param g = (d, g') \<Longrightarrow> grows g g'"
  by (auto simp: createDoubleFBO_def createFBO_def Let_def grows_def splat_draws_def)

lemma resizeFBO_grows:
  "resizeFBO t w h fmt param g = (f, g') \<Longrightarrow> grows g g'"
  by (auto simp: resizeFBO_def createFBO_def Let_def grows_def splat_draws_def blit_draws)

lemma resizeDoubleFBO_cases:
  assumes "resizeDoubleFBO t w h fmt param g = (d, g')"
  shows "(d = t \<and> g' = g \<and> dwidth t = w \<and> dheight t = h) \<or>
         (\<not> (dwidth t = w \<and> dheight t = h) \<and>
          texture (read d) = next_texture g \<and> texture (write d) = Suc (next_texture g) \<and>
          next_texture g' = Suc (Suc (next_texture g)) \<and> grows g g')"
proof (cases "dwidth t = w \<and> dheight t = h")
  case True
  with assms show ?thesis by (simp add: resizeDoubleFBO_def)
next
  case False
  obtain r g1 where r: "resizeFBO (read t) w h fmt param g = (r, g1)"
    by (cases "resizeFBO (read t) w h fmt param g") auto
  obtain wr g2 where wr: "createFBO w h fmt param g1 = (wr, g2)"
    by (cases "createFBO w h fmt param g1") auto
  from assms(1) False r wr have d: "read d = r" "write d = wr" "g' = g2"
    by (auto simp: resizeDoubleFBO_def)
  have "grows g g2"
    using grows_trans [OF resizeFBO_grows [OF r] createFBO_grows [OF wr]] .
  with d False resizeFBO_result(1,4) [OF r] createFBO_result [OF wr] show ?thesis by simp
qed

lemma bloom_levels_alloc:
  "bloom_levels rw rh param i n g = (fs, g') \<Longrightarrow>
     distinct (map texture fs) \<and>
     (\<forall>f \<in> set fs. next_texture g \<le> texture f \<and> texture f < next_texture g') \<and>
     grows g g'"
proof (induction n arbitrary: i g fs g')
  case 0
  then show ?case by simp
next
  case (Suc n)
  show ?case
  proof (cases "js_sar rw (int i + 1) < 2 \<or> js_sar rh (int i + 1) < 2")
    case True
    with Suc.prems show ?thesis by (auto simp: Let_def)
  next
    case False
    obtain f g1 where c: "createFBO (js_sar rw (int i + 1)) (js_sar rh (int i + 1)) FormatRGBA param g = (f, g1)"
      by (cases "createFBO (js_sar rw (int i + 1)) (js_sar rh (int i + 1)) FormatRGBA param g") auto
    obtain fs1 g2 where r: "bloom_levels rw rh param (Suc i) n g1 = (fs1, g2)"
      by (cases "bloom_levels rw rh param (Suc i) n g1") auto
    from Suc.prems False c r have fs: "fs = f # fs1" and g': "g' = g2"
      by (auto simp: Let_def)
    note IH = Suc.IH [OF r]
    have "grows g g2" using grows_trans [OF createFBO_grows [OF c]] IH by blast
    then show ?thesis
      unfolding fs g' using IH createFBO_result [OF c]
      by (auto simp: grows_def)
  qed
qed

lemma double_step:
  assumes step: "(case t0 of None \<Rightarrow> createDoubleFBO w h fmt param g
                  | Some t \<Rightarrow> resizeDoubleFBO t w h fmt param g) = (d, g')"
    and old: "case t0 of None \<Rightarrow> True
              | Some t \<Rightarrow> texture (read t) \<noteq> texture (write t) \<and>
                  texture (read t) < next_texture g \<and> texture (write t) < next_texture g"
  shows "texture (read d) \<noteq> texture (write d)"
    and "texture (read d) < next_texture g'" and "texture (write d) < next_texture g'"
    and "grows g g'" and "blend g' = blend g"
    and "(t0 = Some d \<and> g' = g) \<or>
         (next_texture g \<le> texture (read d) \<and> next_texture g \<le> texture (write d))"
proof -
  have "texture (read d) \<noteq> texture (write d) \<and> texture (read d) < next_texture g' \<and>
        texture (write d) < next_texture g' \<and> grows g g' \<and> blend g' = blend g \<and>
        ((t0 = Some d \<and> g' = g) \<or>
         (next_texture g \<le> texture (read d) \<and> next_texture g \<le> texture (write d)))"
  proof (cases t0)
    case None
    with step have c: "createDoubleFBO w h fmt param g = (d, g')" by simp
    show ?thesis
      using createDoubleFBO_result [OF c] createDoubleFBO_grows [OF c] by simp
  next
    case (Some t)
    with step have r: "resizeDoubleFBO t w h fmt param g = (d, g')" by simp
    from resizeDoubleFBO_cases [OF r] show ?thesis
    proof
      assume "d = t \<and> g' = g \<and> dwidth t = w \<and> dheight t = h"
      with old Some show ?thesis by simp
    next
      assume a: "\<not> (dwidth t = w \<and> dheight t = h) \<and>
          texture (read d) = next_texture g \<and> texture (write d) = Suc (next_texture g) \<and>
          next_texture g' = Suc (Suc (next_texture g)) \<and> grows g g'"
      obtain r1 g1 where r1: "resizeFBO (read t) w h fmt param g = (r1, g1)"
        by (cases "resizeFBO (read t) w h fmt param g") auto
      obtain wr g2 where wr: "createFBO w h fmt param g1 = (wr, g2)"
        by (cases "createFBO w h fmt param g1") auto
      from r a r1 wr have "g' = g2" by (auto simp: resizeDoubleFBO_def)
      with resizeFBO_result(5) [OF r1] createFBO_result [OF wr] have "blend g' = blend g"
        by simp
      with a show ?thesis by simp
    qed
  qed
  then show "texture (read d) \<noteq> texture (write d)"
    and "texture (read d) < next_texture g'" and "texture (write d) < next_texture g'"
    and "grows g g'" and "blend g' = blend g"
    and "(t0 = Some d \<and> g' = g) \<or>
         (next_texture g \<le> texture (read d) \<and> next_texture g \<le> texture (write d))"
    by simp_all
qed

lemma createFBO_alloc:
  "createFBO w h fmt param g = (f, g') \<Longrightarrow>
     texture f = next_texture g \<and> next_texture g' = Suc (next_texture g)"
  by (auto simp: createFBO_def Let_def)

lemma createFBO_blend:
  "createFBO w h fmt param g = (f, g') \<Longrightarrow> blend g' = blend g"
  by (auto simp: createFBO_def Let_def)

lemma createFBO_cleared:
  "createFBO w h fmt param g = (f, g') \<Longrightarrow> pixels g' (texture f) = Cleared (clearColor g)"
  by (auto simp: createFBO_def Let_def)

lemma bloom_levels_blend:
  "bloom_levels rw rh param i n g = (fs, g') \<Longrightarrow> blend g' = blend g"
proof (induction n arbitrary: i g fs g')
  case 0
  then show ?case by simp
next
  case (Suc n)
  then show ?case
    by (auto simp: Let_def createFBO_def split: if_splits prod.splits)
qed

lemma grows_le: "grows g g' \<Longrightarrow> next_texture g \<le> next_texture g'"
  by (simp add: grows_def)

lemma grows_clearColor: "grows g g' \<Longrightarrow> clearColor g' = clearColor g"
  by (simp add: grows_def)

lemma grows_next_program: "grows g g' \<Longrightarrow> next_program g' = next_program g"
  by (simp add: grows_def)

lemma grows_pixels: "grows g g' \<Longrightarrow> x < next_texture g \<Longrightarrow> pixels g' x = pixels g x"
  by (simp add: grows_def)

lemma distinct_sep:
  fixes m :: nat
  shows "distinct xs \<Longrightarrow> distinct ys \<Longrightarrow> (\<forall>x\<in>set xs. x < m) \<Longrightarrow> (\<forall>y\<in>set ys. m \<le> y) \<Longrightarrow>
    distinct (xs @ ys)"
  by fastforce

lemma distinct_alloc:
  fixes a b c d n2 n6 :: nat
  assumes "distinct [a, b, c, d]" "a < n2" "b < n2" "c < n2" "d < n2" "n2 + 5 \<le> n6"
    "distinct ms" "\<And>x. x \<in> set ms \<Longrightarrow> n2 + 5 \<le> x \<and> x < n6"
  shows "distinct ([a, b, c, d, n2, n2 + 1, n2 + 2, n2 + 3, n2 + 4] @ ms @ [n6, n6 + 1])"
proof -
  have ms: "\<forall>x\<in>set ms. n2 + 5 \<le> x" "\<forall>x\<in>set ms. x < n6" using assms(8) by blast+
  have 1: "distinct (ms @ [n6, n6 + 1])"
    by (rule distinct_sep [where m = n6]) (use assms(7) ms in simp_all)
  have 2: "distinct ([n2, n2 + 1, n2 + 2, n2 + 3, n2 + 4] @ (ms @ [n6, n6 + 1]))"
    by (rule distinct_sep [where m = "n2 + 5"]) (use 1 ms assms(6) in simp_all)
  have 3: "distinct ([a, b, c, d] @ ([n2, n2 + 1, n2 + 2, n2 + 3, n2 + 4] @ (ms @ [n6, n6 + 1])))"
  proof (rule distinct_sep [where m = n2])
    show "distinct [a, b, c, d]" by (rule assms(1))
    show "distinct ([n2, n2 + 1, n2 + 2, n2 + 3, n2 + 4] @ ms @ [n6, n6 + 1])" by (rule 2)
    show "\<forall>x\<in>set [a, b, c, d]. x < n2" using assms(2-5) by simp
    have "\<forall>y\<in>set ms. n2 \<le> y" using ms(1) by auto
    then show "\<forall>y\<in>set ([n2, n2 + 1, n2 + 2, n2 + 3, n2 + 4] @ ms @ [n6, n6 + 1]). n2 \<le> y"
      using assms(6) by simp
  qed
  then show ?thesis by simp
qed

lemma bloom_levels_length:
  "bloom_levels rw rh param i n g = (fs, g') \<Longrightarrow> length fs \<le> n"
proof (induction n arbitrary: i g fs g')
  case 0
  then show ?case by simp
next
  case (Suc n)
  then show ?case
    by (fastforce simp: Let_def split: if_splits prod.splits)
qed

lemma initFramebuffers_result:
  assumes init: "initFramebuffers c lin cw ch dye0 velocity0 g = (fb, g')"
    and old: "wf_targets (next_texture g) (old_targets dye0 velocity0)"
  shows "wf_targets (next_texture g') (all_targets fb)"
    and "clearColor g' = clearColor g" and "next_program g' = next_program g"
    and "\<not> blend g'"
    and "pixels g' (texture (read (pressure fb))) = Cleared (clearColor g)"
    and "pixels g' (texture (bloom fb)) = Cleared (clearColor g)"
    and "next_texture g \<le> next_texture g'"
    and "splat_draws g' = splat_draws g"
    and "length (bloomFramebuffers fb) \<le> BLOOM_ITERATIONS c"
proof -
  obtain sw sh where sim: "getResolution cw ch (SIM_RESOLUTION c) = (sw, sh)"
    by (cases "getResolution cw ch (SIM_RESOLUTION c)") auto
  obtain dw dh where dyr: "getResolution cw ch (DYE_RESOLUTION c) = (dw, dh)"
    by (cases "getResolution cw ch (DYE_RESOLUTION c)") auto
  obtain rw rh where blr: "getResolution cw ch (BLOOM_RESOLUTION c) = (rw, rh)"
    by (cases "getResolution cw ch (BLOOM_RESOLUTION c)") auto
  obtain uw uh where sur: "getResolution cw ch (SUNRAYS_RESOLUTION c) = (uw, uh)"
    by (cases "getResolution cw ch (SUNRAYS_RESOLUTION c)") auto
  let ?g0 = "g\<lparr>blend := False\<rparr>"
  obtain d g1 where d: "(case dye0 of
        None \<Rightarrow> createDoubleFBO dw dh FormatRGBA (filtering lin) ?g0
      | Some d \<Rightarrow> resizeDoubleFBO d dw dh FormatRGBA (filtering lin) ?g0) = (d, g1)"
    by (cases "(case dye0 of
        None \<Rightarrow> createDoubleFBO dw dh FormatRGBA (filtering lin) ?g0
      | Some d \<Rightarrow> resizeDoubleFBO d dw dh FormatRGBA (filtering lin) ?g0)") auto
  obtain v g2 where v: "(case velocity0 of
        None \<Rightarrow> createDoubleFBO sw sh FormatRG (filtering lin) g1
      | Some v \<Rightarrow> resizeDoubleFBO v sw sh FormatRG (filtering lin) g1) = (v, g2)"
    by (cases "(case velocity0 of
        None \<Rightarrow> createDoubleFBO sw sh FormatRG (filtering lin) g1
      | Some v \<Rightarrow> resizeDoubleFBO v sw sh FormatRG (filtering lin) g1)") auto
  obtain dv g3 where dv: "createFBO sw sh FormatR NEAREST g2 = (dv, g3)"
    by (cases "createFBO sw sh FormatR NEAREST g2") auto
  obtain cu g4 where cu: "createFBO sw sh FormatR NEAREST g3 = (cu, g4)"
    by (cases "createFBO sw sh FormatR NEAREST g3") auto
  obtain pr g5 where pr: "createDoubleFBO sw sh FormatR NEAREST g4 = (pr, g5)"
    by (cases "createDoubleFBO sw sh FormatR NEAREST g4") auto
  obtain b g5' where b: "createFBO rw rh FormatRGBA (filtering lin) g5 = (b, g5')"
    by (cases "createFBO rw rh FormatRGBA (filtering lin) g5") auto
  obtain fs g6 where fs: "bloom_levels rw rh (filtering lin) 0 (BLOOM_ITERATIONS c) g5' = (fs, g6)"
    by (cases "bloom_levels rw rh (filtering lin) 0 (BLOOM_ITERATIONS c) g5'") auto
  obtain su g6' where su: "createFBO uw uh FormatR (filtering lin) g6 = (su, g6')"
    by (cases "createFBO uw uh FormatR (filtering lin) g6") auto
  obtain st g7 where st: "createFBO uw uh FormatR (filtering lin) g6' = (st, g7)"
    by (cases "createFBO uw uh FormatR (filtering lin) g6'") auto
  from init sim dyr blr sur d v dv cu pr b fs su st
  have fb: "fb = \<lparr>dye = d, velocity = v, divergence = dv, curl = cu, pressure = pr, bloom = b,
           bloomFramebuffers = fs, sunrays = su, sunraysTemp = st\<rparr>" and g': "g' = g7"
    by (simp_all add: initFramebuffers_def initBloomFramebuffers_def initSunraysFramebuffers_def)
  have oldd: "case dye0 of None \<Rightarrow> True
              | Some t \<Rightarrow> texture (read t) \<noteq> texture (write t) \<and>
                  texture (read t) < next_texture ?g0 \<and> texture (write t) < next_texture ?g0"
    using old by (cases dye0; cases velocity0) (simp_all add: old_targets_def wf_targets_def)
  note D = double_step [OF d oldd]
  have le01: "next_texture g \<le> next_texture g1" using grows_le [OF D(4)] by simp
  have oldv: "case velocity0 of None \<Rightarrow> True
              | Some t \<Rightarrow> texture (read t) \<noteq> texture (write t) \<and>
                  texture (read t) < next_texture g1 \<and> texture (write t) < next_texture g1"
    using old le01 by (cases dye0; cases velocity0) (simp_all add: old_targets_def wf_targets_def)
  note V = double_step [OF v oldv]
  have le12: "next_texture g1 \<le> next_texture g2" using grows_le [OF V(4)] .
  have dvne: "texture (read d) \<noteq> texture (read v) \<and> texture (read d) \<noteq> texture (write v) \<and>
    texture (write d) \<noteq> texture (read v) \<and> texture (write d) \<noteq> texture (write v)"
  proof -
    from V(6) show ?thesis
    proof
      assume a: "velocity0 = Some v \<and> g2 = g1"
      from D(6) show ?thesis
      proof
        assume "dye0 = Some d \<and> g1 = ?g0"
        with a old show ?thesis by (simp add: old_targets_def wf_targets_def)
      next
        assume "next_texture ?g0 \<le> texture (read d) \<and> next_texture ?g0 \<le> texture (write d)"
        with a old show ?thesis
          by (cases dye0) (auto simp: old_targets_def wf_targets_def)
      qed
    next
      assume "next_texture g1 \<le> texture (read v) \<and> next_texture g1 \<le> texture (write v)"
      with D(2,3) show ?thesis by auto
    qed
  qed
  note DV = createFBO_alloc [OF dv]
  note CU = createFBO_alloc [OF cu]
  note PR = createDoubleFBO_result(1,2,3) [OF pr]
  note B = createFBO_alloc [OF b]
  note FS = bloom_levels_alloc [OF fs]
  note SU = createFBO_alloc [OF su]
  note ST = createFBO_alloc [OF st]
  have G: "grows ?g0 g1" "grows g1 g2" "grows g2 g3" "grows g3 g4" "grows g4 g5" "grows g5 g5'"
    "grows g5' g6" "grows g6 g6'" "grows g6' g7"
    using D(4) V(4) createFBO_grows [OF dv] createFBO_grows [OF cu] createDoubleFBO_grows [OF pr]
      createFBO_grows [OF b] FS createFBO_grows [OF su] createFBO_grows [OF st] by blast+
  have n6: "next_texture g5' \<le> next_texture g6" using grows_le [OF G(7)] .
  have fsb: "\<And>f. f \<in> set fs \<Longrightarrow> next_texture g5' \<le> texture f \<and> texture f < next_texture g6"
    using FS by blast
  have fsd: "distinct (map texture fs)" using FS by blast
  have lt: "texture (read d) < next_texture g2" "texture (write d) < next_texture g2"
    "texture (read v) < next_texture g2" "texture (write v) < next_texture g2"
    using D(2,3) V(2,3) le12 by simp_all
  have fresh: "\<And>x. x \<in> set (map texture fs) \<Longrightarrow> next_texture g2 + 5 \<le> x \<and> x < next_texture g6"
    using fsb DV CU PR B by fastforce
  have ids: "texture dv = next_texture g2" "texture cu = next_texture g2 + 1"
    "texture (read pr) = next_texture g2 + 2" "texture (write pr) = next_texture g2 + 3"
    "texture b = next_texture g2 + 4"
    "texture su = next_texture g6" "texture st = next_texture g6 + 1"
    using DV CU PR B SU ST by simp_all
  have n26: "next_texture g2 + 5 \<le> next_texture g6" using DV CU PR B n6 by simp
  have n7: "next_texture g7 = next_texture g6 + 2" using SU ST by simp
  have m: "map texture (all_targets fb) =
      [texture (read d), texture (write d), texture (read v), texture (write v),
       next_texture g2, next_texture g2 + 1, next_texture g2 + 2, next_texture g2 + 3,
       next_texture g2 + 4] @ map texture fs @ [next_texture g6, next_texture g6 + 1]"
    unfolding fb all_targets_def by (simp add: ids)
  have d0: "distinct [texture (read d), texture (write d), texture (read v), texture (write v)]"
    using D(1) V(1) dvne by simp
  have d1: "distinct (map texture (all_targets fb))"
    unfolding m using d0 lt n26 fsd fresh by (rule distinct_alloc)
  have b1: "\<forall>x \<in> set (map texture (all_targets fb)). x < next_texture g7"
    unfolding m n7 using lt n26 fresh by fastforce
  show "wf_targets (next_texture g') (all_targets fb)"
    unfolding g' wf_targets_def using d1 b1 by (simp add: list_all_iff)
  have g57: "grows g5' g7"
    using grows_trans [OF G(7) grows_trans [OF G(8) G(9)]] .
  have g5: "grows g5 g7"
    using grows_trans [OF G(6) g57] .
  have gg: "grows ?g0 g7"
    using grows_trans [OF G(1) grows_trans [OF G(2) grows_trans [OF G(3)
      grows_trans [OF G(4) grows_trans [OF G(5) g5]]]]] .
  show "clearColor g' = clearColor g"
    unfolding g' using grows_clearColor [OF gg] by simp
  show "next_program g' = next_program g"
    unfolding g' using grows_next_program [OF gg] by simp
  show "\<not> blend g'"
    unfolding g' using D(5) V(5) createFBO_blend [OF dv] createFBO_blend [OF cu]
      createDoubleFBO_result(9) [OF pr] createFBO_blend [OF b] bloom_levels_blend [OF fs]
      createFBO_blend [OF su] createFBO_blend [OF st] by simp
  show "next_texture g \<le> next_texture g'"
    unfolding g' using grows_le [OF gg] by simp
  show "splat_draws g' = splat_draws g"
    unfolding g' using grows_splat_draws [OF gg] by (simp add: splat_draws_def)
  show "length (bloomFramebuffers fb) \<le> BLOOM_ITERATIONS c"
    unfolding fb using bloom_levels_length [OF fs] by simp
  have cc: "clearColor g4 = clearColor g"
    using grows_clearColor [OF G(1)] grows_clearColor [OF G(2)] grows_clearColor [OF G(3)]
      grows_clearColor [OF G(4)] by simp
  have "pixels g5 (texture (read pr)) = Cleared (clearColor g)"
    using PR(1) createDoubleFBO_result(6) [OF pr] cc by simp
  moreover note g5
  ultimately show "pixels g' (texture (read (pressure fb))) = Cleared (clearColor g)"
    unfolding fb g' using PR(1,3) grows_pixels [of g5 g7 "texture (read pr)"] by simp
  have "clearColor g5 = clearColor g" using cc grows_clearColor [OF G(5)] by simp
  then have "pixels g5' (texture b) = Cleared (clearColor g)"
    using createFBO_cleared [OF b] by simp
  moreover note g57
  ultimately show "pixels g' (texture (bloom fb)) = Cleared (clearColor g)"
    unfolding fb g' using B grows_pixels [of g5' g7 "texture b"] by simp
qed

lemma same_frame_passes:
  "same_frame e (emitter_pass inp e)"
  "same_frame e (color_pass inp e)"
  "same_frame e (splat_velocity_pass inp e)"
  "same_frame e (splat_dye_pass inp e)"
  "same_frame e (curl_pass e)"
  "same_frame e (vorticity_pass dt e)"
  "same_frame e (divergence_pass e)"
  "same_frame e (clear_pressure_pass e)"
  "same_frame e (pressure_bind_pass e)"
  "same_frame e (pressure_iteration e)"
  "same_frame e (gradient_subtract_pass e)"
  "same_frame e (advect_velocity_pass dt e)"
  "same_frame e (advect_dye_pass e)"
  "same_frame e (bloom_pass e)"
  "same_frame e (sunrays_pass e)"
  "same_frame e (display_pass e)"
  by (simp_all add: same_frame_def pass_defs Let_def split_beta applyBloom_fields
      applySunrays_fields blur_fields)

lemma applyBloom_short: "length fbs < 2 \<Longrightarrow> applyBloom c fbs s d g = g"
  by (simp add: applyBloom_def)

lemma applyBloom_blend:
  "blend (applyBloom c fbs s d g) = (if length fbs < 2 then blend g else False)"
  by (simp add: applyBloom_def Let_def split_beta)

lemma applyBloom_pixels:
  "x \<noteq> texture d \<Longrightarrow> x \<notin> texture ` set fbs \<Longrightarrow> pixels (applyBloom c fbs s d g) x = pixels g x"
proof -
  assume a: "x \<noteq> texture d" "x \<notin> texture ` set fbs"
  then have b: "x \<notin> texture ` set (rev (butlast fbs))"
    by (auto dest: in_set_butlastD)
  show ?thesis
    using a by (simp add: applyBloom_def Let_def split_beta bloom_chain_pixels [OF b] bloom_chain_pixels [OF a(2)])
qed

lemma applySunrays_pixels:
  "x \<noteq> texture m \<Longrightarrow> x \<noteq> texture d \<Longrightarrow> pixels (applySunrays c s m d g) x = pixels g x"
  by (simp add: applySunrays_def Let_def)

lemma blur_pixels:
  "x \<noteq> texture t \<Longrightarrow> x \<noteq> texture tmp \<Longrightarrow> pixels (blur t tmp n g) x = pixels g x"
  by (simp add: blur_def blur_loop_pixels)

lemma blend_passes:
  "blend (gl (emitter_pass inp e)) = blend (gl e)"
  "blend (gl (color_pass inp e)) = blend (gl e)"
  "blend (gl (splat_velocity_pass inp e)) = blend (gl e)"
  "blend (gl (splat_dye_pass inp e)) = blend (gl e)"
  "blend (gl (curl_pass e)) = blend (gl e)"
  "blend (gl (vorticity_pass dt e)) = blend (gl e)"
  "blend (gl (divergence_pass e)) = blend (gl e)"
  "blend (gl (clear_pressure_pass e)) = blend (gl e)"
  "blend (gl (pressure_bind_pass e)) = blend (gl e)"
  "blend (gl (pressure_iteration e)) = blend (gl e)"
  "blend (gl (gradient_subtract_pass e)) = blend (gl e)"
  "blend (gl (advect_velocity_pass dt e)) = blend (gl e)"
  "blend (gl (advect_dye_pass e)) = blend (gl e)"
  "blend (gl e) = False \<Longrightarrow> blend (gl (bloom_pass e)) = False"
  "blend (gl (sunrays_pass e)) = False"
  "blend (gl (display_pass e)) = blend (gl e)"
  by (simp_all add: pass_defs Let_def split_beta applyBloom_blend
      applySunrays_fields blur_fields)

lemma pixels_passes:
  "pixels (gl (emitter_pass inp e)) x = pixels (gl e) x"
  "pixels (gl (color_pass inp e)) x = pixels (gl e) x"
  "x \<noteq> texture (write (velocity e)) \<Longrightarrow> pixels (gl (splat_velocity_pass inp e)) x = pixels (gl e) x"
  "x \<noteq> texture (write (dye e)) \<Longrightarrow> pixels (gl (splat_dye_pass inp e)) x = pixels (gl e) x"
  "x \<noteq> texture (curl e) \<Longrightarrow> pixels (gl (curl_pass e)) x = pixels (gl e) x"
  "x \<noteq> texture (write (velocity e)) \<Longrightarrow> pixels (gl (vorticity_pass dt e)) x = pixels (gl e) x"
  "x \<noteq> texture (divergence e) \<Longrightarrow> pixels (gl (divergence_pass e)) x = pixels (gl e) x"
  "x \<noteq> texture (write (pressure e)) \<Longrightarrow> pixels (gl (clear_pressure_pass e)) x = pixels (gl e) x"
  "pixels (gl (pressure_bind_pass e)) x = pixels (gl e) x"
  "x \<noteq> texture (write (pressure e)) \<Longrightarrow> pixels (gl (pressure_iteration e)) x = pixels (gl e) x"
  "x \<noteq> texture (write (velocity e)) \<Longrightarrow> pixels (gl (gradient_subtract_pass e)) x = pixels (gl e) x"
  "x \<noteq> texture (write (velocity e)) \<Longrightarrow> pixels (gl (advect_velocity_pass dt e)) x = pixels (gl e) x"
  "x \<noteq> texture (write (dye e)) \<Longrightarrow> pixels (gl (advect_dye_pass e)) x = pixels (gl e) x"
  "x \<noteq> texture (bloom e) \<Longrightarrow> x \<notin> texture ` set (bloomFramebuffers e) \<Longrightarrow>
     pixels (gl (bloom_pass e)) x = pixels (gl e) x"
  "x \<noteq> texture (write (dye e)) \<Longrightarrow> x \<noteq> texture (sunrays e) \<Longrightarrow> x \<noteq> texture (sunraysTemp e) \<Longrightarrow>
     pixels (gl (sunrays_pass e)) x = pixels (gl e) x"
  "pixels (gl (display_pass e)) x = pixels (gl e) x"
  by (simp_all add: pass_defs Let_def split_beta applyBloom_pixels applySunrays_pixels blur_pixels)

lemma wf_bloom_ne:
  assumes "wf e"
  shows "texture (bloom e) \<noteq> texture (write (velocity e))"
    "texture (bloom e) \<noteq> texture (write (dye e))"
    "texture (bloom e) \<noteq> texture (curl e)"
    "texture (bloom e) \<noteq> texture (divergence e)"
    "texture (bloom e) \<noteq> texture (write (pressure e))"
    "texture (bloom e) \<noteq> texture (sunrays e)"
    "texture (bloom e) \<noteq> texture (sunraysTemp e)"
  using assms by (auto simp: wf_def wf_targets_def all_targets_def)

lemma wf_pressure_ne:
  assumes "wf e"
  shows "texture (read (pressure e)) \<noteq> texture (write (velocity e))"
    "texture (read (pressure e)) \<noteq> texture (write (dye e))"
    "texture (read (pressure e)) \<noteq> texture (curl e)"
    "texture (read (pressure e)) \<noteq> texture (divergence e)"
    "texture (read (pressure e)) \<noteq> texture (write (pressure e))"
    "texture (read (pressure e)) \<noteq> texture (bloom e)"
    "texture (read (pressure e)) \<notin> texture ` set (bloomFramebuffers e)"
    "texture (read (pressure e)) \<noteq> texture (sunrays e)"
    "texture (read (pressure e)) \<noteq> texture (sunraysTemp e)"
    "texture (divergence e) \<noteq> texture (write (pressure e))"
  using assms by (auto simp: wf_def wf_targets_def all_targets_def)

lemma bloom_pixels_passes:
  assumes "wf e" and "length (bloomFramebuffers e) < 2"
  shows "pixels (gl (emitter_pass inp e)) (texture (bloom e)) = pixels (gl e) (texture (bloom e))"
  "pixels (gl (color_pass inp e)) (texture (bloom e)) = pixels (gl e) (texture (bloom e))"
  "pixels (gl (splat_velocity_pass inp e)) (texture (bloom e)) = pixels (gl e) (texture (bloom e))"
  "pixels (gl (splat_dye_pass inp e)) (texture (bloom e)) = pixels (gl e) (texture (bloom e))"
  "pixels (gl (curl_pass e)) (texture (bloom e)) = pixels (gl e) (texture (bloom e))"
  "pixels (gl (vorticity_pass dt e)) (texture (bloom e)) = pixels (gl e) (texture (bloom e))"
  "pixels (gl (divergence_pass e)) (texture (bloom e)) = pixels (gl e) (texture (bloom e))"
  "pixels (gl (clear_pressure_pass e)) (texture (bloom e)) = pixels (gl e) (texture (bloom e))"
  "pixels (gl (pressure_bind_pass e)) (texture (bloom e)) = pixels (gl e) (texture (bloom e))"
  "pixels (gl (pressure_iteration e)) (texture (bloom e)) = pixels (gl e) (texture (bloom e))"
  "pixels (gl (gradient_subtract_pass e)) (texture (bloom e)) = pixels (gl e) (texture (bloom e))"
  "pixels (gl (advect_velocity_pass dt e)) (texture (bloom e)) = pixels (gl e) (texture (bloom e))"
  "pixels (gl (advect_dye_pass e)) (texture (bloom e)) = pixels (gl e) (texture (bloom e))"
  "pixels (gl (bloom_pass e)) (texture (bloom e)) = pixels (gl e) (texture (bloom e))"
  "pixels (gl (sunrays_pass e)) (texture (bloom e)) = pixels (gl e) (texture (bloom e))"
  "pixels (gl (display_pass e)) (texture (bloom e)) = pixels (gl e) (texture (bloom e))"
  using wf_bloom_ne [OF assms(1)] assms(2)
  by (simp_all add: pixels_passes) (simp add: bloom_pass_def applyBloom_short)

lemma pressure_pixels_passes:
  assumes "wf e"
  shows "pixels (gl (emitter_pass inp e)) (texture (read (pressure e))) = pixels (gl e) (texture (read (pressure e)))"
  "pixels (gl (color_pass inp e)) (texture (read (pressure e))) = pixels (gl e) (texture (read (pressure e)))"
  "pixels (gl (splat_velocity_pass inp e)) (texture (read (pressure e))) = pixels (gl e) (texture (read (pressure e)))"
  "pixels (gl (splat_dye_pass inp e)) (texture (read (pressure e))) = pixels (gl e) (texture (read (pressure e)))"
  "pixels (gl (curl_pass e)) (texture (read (pressure e))) = pixels (gl e) (texture (read (pressure e)))"
  "pixels (gl (vorticity_pass dt e)) (texture (read (pressure e))) = pixels (gl e) (texture (read (pressure e)))"
  "pixels (gl (divergence_pass e)) (texture (read (pressure e))) = pixels (gl e) (texture (read (pressure e)))"
  "pixels (gl (gradient_subtract_pass e)) (texture (read (pressure e))) = pixels (gl e) (texture (read (pressure e)))"
  "pixels (gl (advect_velocity_pass dt e)) (texture (read (pressure e))) = pixels (gl e) (texture (read (pressure e)))"
  "pixels (gl (advect_dye_pass e)) (texture (read (pressure e))) = pixels (gl e) (texture (read (pressure e)))"
  "pixels (gl (bloom_pass e)) (texture (read (pressure e))) = pixels (gl e) (texture (read (pressure e)))"
  "pixels (gl (sunrays_pass e)) (texture (read (pressure e))) = pixels (gl e) (texture (read (pressure e)))"
  "pixels (gl (display_pass e)) (texture (read (pressure e))) = pixels (gl e) (texture (read (pressure e)))"
  using wf_pressure_ne [OF assms(1)]
  by (simp_all add: pixels_passes)

lemma pressure_passes_same:
  "pressure (emitter_pass inp e) = pressure e"
  "pressure (color_pass inp e) = pressure e"
  "pressure (splat_velocity_pass inp e) = pressure e"
  "pressure (splat_dye_pass inp e) = pressure e"
  "pressure (curl_pass e) = pressure e"
  "pressure (vorticity_pass dt e) = pressure e"
  "pressure (divergence_pass e) = pressure e"
  "pressure (gradient_subtract_pass e) = pressure e"
  "pressure (advect_velocity_pass dt e) = pressure e"
  "pressure (advect_dye_pass e) = pressure e"
  "pressure (bloom_pass e) = pressure e"
  "pressure (sunrays_pass e) = pressure e"
  "pressure (display_pass e) = pressure e"
  by (simp_all add: pass_defs Let_def split_beta)

lemma inv_pass:
  assumes "inv e" and "wf (f e)" and "same_frame e (f e)" and "blend (gl (f e)) = False"
    and "length (bloomFramebuffers e) < 2 \<Longrightarrow>
         pixels (gl (f e)) (texture (bloom e)) = pixels (gl e) (texture (bloom e))"
  shows "inv (f e)"
proof -
  have bi: "bloom_idle (f e)"
  proof (cases "2 \<le> length (bloomFramebuffers e)")
    case True
    then show ?thesis using assms(3) by (simp add: bloom_idle_def same_frame_def)
  next
    case False
    then have "length (bloomFramebuffers e) < 2" by simp
    from assms(5) [OF this] assms(1,3) False show ?thesis
      by (simp add: inv_def bloom_idle_def same_frame_def)
  qed
  show ?thesis using assms(1-4) bi by (simp add: inv_def same_frame_def)
qed

lemma inv_passes:
  assumes "inv e"
  shows "inv (emitter_pass inp e)"
  "inv (color_pass inp e)"
  "inv (splat_velocity_pass inp e)"
  "inv (splat_dye_pass inp e)"
  "inv (curl_pass e)"
  "inv (vorticity_pass dt e)"
  "inv (divergence_pass e)"
  "inv (clear_pressure_pass e)"
  "inv (pressure_bind_pass e)"
  "inv (pressure_iteration e)"
  "inv (gradient_subtract_pass e)"
  "inv (advect_velocity_pass dt e)"
  "inv (advect_dye_pass e)"
  "inv (bloom_pass e)"
  "inv (sunrays_pass e)"
  "inv (display_pass e)"
proof -
  have w: "wf e" and b: "blend (gl e) = False" using assms by (simp_all add: inv_def)
  note facts = assms w b wf_passes same_frame_passes blend_passes bloom_pixels_passes [OF w]
  show "inv (emitter_pass inp e)"
    by (rule inv_pass [of e "emitter_pass inp"]) (simp_all add: facts)
  show "inv (color_pass inp e)"
    by (rule inv_pass [of e "color_pass inp"]) (simp_all add: facts)
  show "inv (splat_velocity_pass inp e)"
    by (rule inv_pass [of e "splat_velocity_pass inp"]) (simp_all add: facts)
  show "inv (splat_dye_pass inp e)"
    by (rule inv_pass [of e "splat_dye_pass inp"]) (simp_all add: facts)
  show "inv (curl_pass e)"
    by (rule inv_pass [of e "curl_pass"]) (simp_all add: facts)
  show "inv (vorticity_pass dt e)"
    by (rule inv_pass [of e "vorticity_pass dt"]) (simp_all add: facts)
  show "inv (divergence_pass e)"
    by (rule inv_pass [of e "divergence_pass"]) (simp_all add: facts)
  show "inv (clear_pressure_pass e)"
    by (rule inv_pass [of e "clear_pressure_pass"]) (simp_all add: facts)
  show "inv (pressure_bind_pass e)"
    by (rule inv_pass [of e "pressure_bind_pass"]) (simp_all add: facts)
  show "inv (pressure_iteration e)"
    by (rule inv_pass [of e "pressure_iteration"]) (simp_all add: facts)
  show "inv (gradient_subtract_pass e)"
    by (rule inv_pass [of e "gradient_subtract_pass"]) (simp_all add: facts)
  show "inv (advect_velocity_pass dt e)"
    by (rule inv_pass [of e "advect_velocity_pass dt"]) (simp_all add: facts)
  show "inv (advect_dye_pass e)"
    by (rule inv_pass [of e "advect_dye_pass"]) (simp_all add: facts)
  show "inv (bloom_pass e)"
    by (rule inv_pass [of e "bloom_pass"]) (simp_all add: facts)
  show "inv (sunrays_pass e)"
    by (rule inv_pass [of e "sunrays_pass"]) (simp_all add: facts)
  show "inv (display_pass e)"
    by (rule inv_pass [of e "display_pass"]) (simp_all add: facts)
qed

lemma wf_old_targets:
  "wf e \<Longrightarrow> wf_targets (next_texture (gl e)) (old_targets (Some (dye e)) (Some (velocity e)))"
  by (auto simp: wf_def wf_targets_def all_targets_def old_targets_def)

lemma resize_pass_unchanged:
  "canvas_width e = scaleByPixelRatio (devicePixelRatio inp) (clientWidth inp) \<Longrightarrow>
   canvas_height e = scaleByPixelRatio (devicePixelRatio inp) (clientHeight inp) \<Longrightarrow>
   resize_pass inp e = e"
  by (simp add: resize_pass_def Let_def)

lemma resize_pass_changed:
  assumes ch: "canvas_width e \<noteq> scaleByPixelRatio (devicePixelRatio inp) (clientWidth inp) \<or>
      canvas_height e \<noteq> scaleByPixelRatio (devicePixelRatio inp) (clientHeight inp)"
    and w: "wf e"
  shows "wf (resize_pass inp e)"
    and "blend (gl (resize_pass inp e)) = False"
    and "clearColor (gl (resize_pass inp e)) = clearColor (gl e)"
    and "pixels (gl (resize_pass inp e)) (texture (read (pressure (resize_pass inp e)))) =
           Cleared (clearColor (gl e))"
    and "pixels (gl (resize_pass inp e)) (texture (bloom (resize_pass inp e))) =
           Cleared (clearColor (gl e))"
proof -
  let ?w = "scaleByPixelRatio (devicePixelRatio inp) (clientWidth inp)"
  let ?h = "scaleByPixelRatio (devicePixelRatio inp) (clientHeight inp)"
  obtain fb g' where i: "initFramebuffers (config e) (supportLinearFiltering e) ?w ?h
      (Some (dye e)) (Some (velocity e)) (gl e) = (fb, g')"
    by (cases "initFramebuffers (config e) (supportLinearFiltering e) ?w ?h
      (Some (dye e)) (Some (velocity e)) (gl e)") auto
  note R = initFramebuffers_result [OF i wf_old_targets [OF w]]
  have r: "resize_pass inp e = e\<lparr>canvas_width := ?w, canvas_height := ?h, gl := g',
                     dye := dye fb, velocity := velocity fb, divergence := divergence fb,
                     curl := curl fb, pressure := pressure fb, bloom := bloom fb,
                     bloomFramebuffers := bloomFramebuffers fb, sunrays := sunrays fb,
                     sunraysTemp := sunraysTemp fb\<rparr>"
    using ch i by (auto simp: resize_pass_def Let_def)
  have a: "all_targets (resize_pass inp e) = all_targets fb"
    unfolding r by (simp add: all_targets_def)
  show "wf (resize_pass inp e)"
    unfolding wf_def a using R(1) by (simp add: r)
  show "blend (gl (resize_pass inp e)) = False" using R(4) by (simp add: r)
  show "clearColor (gl (resize_pass inp e)) = clearColor (gl e)" using R(2) by (simp add: r)
  show "pixels (gl (resize_pass inp e)) (texture (read (pressure (resize_pass inp e)))) =
           Cleared (clearColor (gl e))" using R(5) by (simp add: r)
  show "pixels (gl (resize_pass inp e)) (texture (bloom (resize_pass inp e))) =
           Cleared (clearColor (gl e))" using R(6) by (simp add: r)
qed

lemma resize_pass_keeps:
  "config (resize_pass inp e) = config e"
  "supportLinearFiltering (resize_pass inp e) = supportLinearFiltering e"
  "displayMaterial (resize_pass inp e) = displayMaterial e"
  "currentColor (resize_pass inp e) = currentColor e"
  "lastTime (resize_pass inp e) = lastTime e"
  by (simp_all add: resize_pass_def Let_def split_beta)

lemma inv_resize_pass:
  assumes "inv e"
  shows "inv (resize_pass inp e)"
proof (cases "canvas_width e \<noteq> scaleByPixelRatio (devicePixelRatio inp) (clientWidth inp) \<or>
      canvas_height e \<noteq> scaleByPixelRatio (devicePixelRatio inp) (clientHeight inp)")
  case True
  have w: "wf e" using assms by (simp add: inv_def)
  note R = resize_pass_changed [OF True w]
  show ?thesis
    using assms R by (simp add: inv_def bloom_idle_def resize_pass_keeps)
next
  case False
  then show ?thesis using assms by (simp add: resize_pass_unchanged)
qed

lemma update_passes_cases:
  assumes "f \<in> set (update_passes c inp dt)"
  shows "f = resize_pass inp \<or> f = emitter_pass inp \<or> f = color_pass inp \<or>
    f = splat_velocity_pass inp \<or> f = splat_dye_pass inp \<or> f = curl_pass \<or>
    f = vorticity_pass dt \<or> f = divergence_pass \<or> f = clear_pressure_pass \<or>
    f = pressure_bind_pass \<or> f = pressure_iteration \<or> f = gradient_subtract_pass \<or>
    f = advect_velocity_pass dt \<or> f = advect_dye_pass \<or> f = bloom_pass \<or>
    f = sunrays_pass \<or> f = display_pass"
  using assms
  by (auto simp: update_passes_def emitter_passes_def pressure_passes_def post_passes_def
      split: if_splits)

lemma inv_update_pass:
  assumes "f \<in> set (update_passes c inp dt)" and "inv e"
  shows "inv (f e)"
  using update_passes_cases [OF assms(1)] inv_passes [OF assms(2)] inv_resize_pass [OF assms(2)]
  by auto

lemma inv_lastTime [simp]: "inv (e\<lparr>lastTime := t\<rparr>) = inv e"
  by (simp add: inv_def wf_def all_targets_def bloom_idle_def)

lemma inv_prefix:
  assumes "inv e"
  shows "inv (run_passes (take k (update_passes c inp dt)) e)"
proof (rule run_passes_invariant [where P = inv])
  fix f e' assume "f \<in> set (take k (update_passes c inp dt))" and "inv e'"
  then show "inv (f e')" using inv_update_pass [of f c inp dt e'] by (auto dest: in_set_takeD)
qed (rule assms)

lemma inv_update: "inv e \<Longrightarrow> inv (update inp e)"
  using inv_prefix [where e = "e\<lparr>lastTime := now_last inp\<rparr>" and c = "config e" and inp = inp
      and dt = "update_dt (now_dt inp) (lastTime e)"
      and k = "length (update_passes (config e) inp (update_dt (now_dt inp) (lastTime e)))"]
  by (simp add: update_def Let_def)

lemma inv_startup: "inv (startup c0 lin cw ch now)"
proof -
  let ?c = "configure lin c0"
  obtain m g where u: "updateKeywords ?c (new_Material, getWebGLContext) = (m, g)"
    by (cases "updateKeywords ?c (new_Material, getWebGLContext)") auto
  obtain fb g' where i: "initFramebuffers ?c lin cw ch None None g = (fb, g')"
    by (cases "initFramebuffers ?c lin cw ch None None g") auto
  have m: "is_material (activeProgram m)" and g: "clearColor g = (0, 0, 0, 1)"
    using u by (auto simp: updateKeywords_def setKeywords_def new_Material_def
        getWebGLContext_def Let_def)
  have "wf_targets (next_texture g) (old_targets None None)"
    by (simp add: old_targets_def wf_targets_def)
  note R = initFramebuffers_result [OF i this]
  have s: "startup c0 lin cw ch now =
        \<lparr>dye = dye fb, velocity = velocity fb, divergence = divergence fb, curl = curl fb,
          pressure = pressure fb, bloom = bloom fb, bloomFramebuffers = bloomFramebuffers fb,
          sunrays = sunrays fb, sunraysTemp = sunraysTemp fb,
          gl = g', config = ?c, supportLinearFiltering = lin, canvas_width = cw,
          canvas_height = ch, lastTime = now, emitterPos = (0.5, 0.5),
          currentColor = (0, 0, 0), displayMaterial = m\<rparr>"
    using u i by (simp add: startup_def Let_def)
  have a: "all_targets (startup c0 lin cw ch now) = all_targets fb"
    unfolding s by (simp add: all_targets_def)
  show ?thesis
    unfolding inv_def wf_def a bloom_idle_def using R m g by (simp add: s)
qed

lemma inv_run: "inv e \<Longrightarrow> inv (run ticks e)"
  by (induction ticks arbitrary: e) (simp_all add: inv_update)

lemma same_frame_config: "same_frame e e' \<Longrightarrow> config e' = config e"
  by (simp add: same_frame_def)

lemmas config_passes = same_frame_passes [THEN same_frame_config]

lemma inv_wf: "inv e \<Longrightarrow> wf e"
  by (simp add: inv_def)

lemma keeps_pressure_passes:
  "keeps_pressure (emitter_pass inp)"
  "keeps_pressure (color_pass inp)"
  "keeps_pressure (splat_velocity_pass inp)"
  "keeps_pressure (splat_dye_pass inp)"
  "keeps_pressure curl_pass"
  "keeps_pressure (vorticity_pass dt)"
  "keeps_pressure divergence_pass"
  "keeps_pressure gradient_subtract_pass"
  "keeps_pressure (advect_velocity_pass dt)"
  "keeps_pressure advect_dye_pass"
  "keeps_pressure bloom_pass"
  "keeps_pressure sunrays_pass"
  "keeps_pressure display_pass"
  by (simp_all add: keeps_pressure_def inv_passes pressure_px_def pressure_passes_same
      pressure_pixels_passes [OF inv_wf] config_passes)

lemma keeps_pressure_run:
  assumes "\<And>f. f \<in> set fs \<Longrightarrow> keeps_pressure f" and "inv e"
  shows "inv (run_passes fs e) \<and> pressure (run_passes fs e) = pressure e \<and>
         pressure_px (run_passes fs e) = pressure_px e \<and> config (run_passes fs e) = config e"
  using assms
proof (induction fs arbitrary: e)
  case Nil
  then show ?case by simp
next
  case (Cons f fs)
  have k: "keeps_pressure f" using Cons.prems(1) by simp
  with Cons.prems(2) have 1: "inv (f e)" "pressure (f e) = pressure e"
    "pressure_px (f e) = pressure_px e" "config (f e) = config e"
    by (simp_all add: keeps_pressure_def)
  have "inv (run_passes fs (f e)) \<and> pressure (run_passes fs (f e)) = pressure (f e) \<and>
         pressure_px (run_passes fs (f e)) = pressure_px (f e) \<and>
         config (run_passes fs (f e)) = config (f e)"
    by (rule Cons.IH) (use Cons.prems(1) 1 in simp_all)
  with 1 show ?case by simp
qed

lemma keeps_pressure_emitter:
  "f \<in> set (emitter_passes inp @ [curl_pass, vorticity_pass dt, divergence_pass]) \<Longrightarrow>
   keeps_pressure f"
  by (auto simp: emitter_passes_def keeps_pressure_passes split: if_splits)

lemma keeps_pressure_rest:
  "f \<in> set ([gradient_subtract_pass, advect_velocity_pass dt, advect_dye_pass] @ post_passes c) \<Longrightarrow>
   keeps_pressure f"
  by (auto simp: post_passes_def keeps_pressure_passes split: if_splits)

lemma clear_pressure_px:
  assumes "inv e"
  shows "pressure_px (clear_pressure_pass e) = decayed e"
proof -
  have b: "blend (gl e) = False" using assms by (simp add: inv_def)
  show ?thesis
    by (simp add: clear_pressure_pass_def Let_def pressure_px_def decayed_def blit_pixels
        shade_def sampled_def uniform_uniforms b)
qed

lemma pressure_bind_ready:
  assumes "inv e"
  shows "loop_ready (velocity_texel e) (divergence_px e) (pressure_bind_pass e)"
    and "pressure_px (pressure_bind_pass e) = pressure_px e"
    and "config (pressure_bind_pass e) = config e"
proof -
  show "loop_ready (velocity_texel e) (divergence_px e) (pressure_bind_pass e)"
    unfolding loop_ready_def using inv_passes(9) [OF assms]
    by (simp add: pressure_bind_pass_def Let_def uniform_uniforms divergence_px_def)
  show "pressure_px (pressure_bind_pass e) = pressure_px e"
    by (simp add: pressure_bind_pass_def Let_def pressure_px_def)
  show "config (pressure_bind_pass e) = config e"
    by (simp add: pressure_bind_pass_def Let_def)
qed

lemma pressure_iteration_step:
  assumes "loop_ready t D e"
  shows "loop_ready t D (pressure_iteration e)"
    and "pressure_px (pressure_iteration e) = Shaded PressureProgram [Some t] [pressure_px e, D]"
    and "config (pressure_iteration e) = config e"
proof -
  have i: "inv e" and b: "blend (gl e) = False" and p: "program (gl e) = Some PressureProgram"
    and u: "uniforms (gl e) PressureProgram ''texelSize'' = Some t"
      "uniforms (gl e) PressureProgram ''uDivergence'' = Some (I 0)"
      "units (gl e) 0 = Some (texture (divergence e))"
    and d: "pixels (gl e) (texture (divergence e)) = D"
    using assms by (simp_all add: loop_ready_def inv_def divergence_px_def)
  note ne = wf_pressure_ne [OF inv_wf [OF i]]
  show "loop_ready t D (pressure_iteration e)"
    unfolding loop_ready_def using inv_passes(10) [OF i] p u d ne
    by (simp add: pressure_iteration_def Let_def uniform_uniforms divergence_px_def)
  show "pressure_px (pressure_iteration e) = Shaded PressureProgram [Some t] [pressure_px e, D]"
    using p u d b ne
    by (simp add: pressure_iteration_def Let_def pressure_px_def blit_pixels
        shade_def sampled_def uniform_uniforms)
  show "config (pressure_iteration e) = config e"
    by (simp add: pressure_iteration_def Let_def)
qed

lemma pressure_loop:
  assumes "loop_ready t D e"
  shows "loop_ready t D ((pressure_iteration ^^ n) e) \<and>
         pressure_px ((pressure_iteration ^^ n) e) =
           ((\<lambda>p. Shaded PressureProgram [Some t] [p, D]) ^^ n) (pressure_px e) \<and>
         config ((pressure_iteration ^^ n) e) = config e"
proof (induction n)
  case 0
  show ?case using assms by simp
next
  case (Suc n)
  then show ?case
    using pressure_iteration_step [of t D "(pressure_iteration ^^ n) e"] by simp
qed

lemma pressure_passes_px:
  assumes "inv e"
  shows "pressure_px (run_passes (pressure_passes (config e)) e) =
           (jacobi_draw e ^^ PRESSURE_ITERATIONS (config e)) (decayed e)"
    and "inv (run_passes (pressure_passes (config e)) e)"
    and "config (run_passes (pressure_passes (config e)) e) = config e"
proof -
  let ?e1 = "clear_pressure_pass e"
  let ?e2 = "pressure_bind_pass ?e1"
  let ?n = "PRESSURE_ITERATIONS (config e)"
  have i1: "inv ?e1" using inv_passes(8) [OF assms] .
  have vt: "velocity_texel ?e1 = velocity_texel e"
    by (simp add: velocity_texel_def clear_pressure_pass_def Let_def)
  have dp: "divergence_px ?e1 = divergence_px e"
    using wf_pressure_ne(10) [OF inv_wf [OF assms]]
    by (simp add: divergence_px_def clear_pressure_pass_def Let_def)
  have r: "loop_ready (velocity_texel e) (divergence_px e) ?e2"
    using pressure_bind_ready(1) [OF i1] by (simp add: vt dp)
  note L = pressure_loop [OF r, of ?n]
  have px2: "pressure_px ?e2 = decayed e"
    using pressure_bind_ready(2) [OF i1] clear_pressure_px [OF assms] by simp
  have run: "run_passes (pressure_passes (config e)) e = (pressure_iteration ^^ ?n) ?e2"
    by (simp add: pressure_passes_def run_passes_replicate)
  have j: "jacobi_draw e = (\<lambda>p. Shaded PressureProgram [Some (velocity_texel e)] [p, divergence_px e])"
    by (rule ext) (simp add: jacobi_draw_def)
  show "pressure_px (run_passes (pressure_passes (config e)) e) =
           (jacobi_draw e ^^ PRESSURE_ITERATIONS (config e)) (decayed e)"
    unfolding run j using L px2 by simp
  show "inv (run_passes (pressure_passes (config e)) e)"
    unfolding run using L by (simp add: loop_ready_def)
  show "config (run_passes (pressure_passes (config e)) e) = config e"
    unfolding run using L pressure_bind_ready(3) [OF i1]
    by (simp add: clear_pressure_pass_def Let_def)
qed

lemma update_split:
  "update inp e =
     run_passes ([gradient_subtract_pass, advect_velocity_pass (update_dt (now_dt inp) (lastTime e)),
                  advect_dye_pass] @ post_passes (config e))
       (run_passes (pressure_passes (config e))
          (before_pressure inp (update_dt (now_dt inp) (lastTime e)) (e\<lparr>lastTime := now_last inp\<rparr>)))"
  by (simp add: update_def Let_def update_passes_def before_pressure_def)

lemma before_pressure_facts:
  assumes "inv e"
  shows "inv (before_pressure inp dt e)"
    and "config (before_pressure inp dt e) = config e"
    and "pressure_px (before_pressure inp dt e) =
           (if resized inp e then Cleared (0, 0, 0, 1) else pressure_px e)"
proof -
  let ?e1 = "resize_pass inp e"
  have i1: "inv ?e1" using inv_resize_pass [OF assms] .
  have k: "inv (before_pressure inp dt e) \<and> pressure (before_pressure inp dt e) = pressure ?e1 \<and>
      pressure_px (before_pressure inp dt e) = pressure_px ?e1 \<and>
      config (before_pressure inp dt e) = config ?e1"
    unfolding before_pressure_def run_passes_simps(2)
    by (rule keeps_pressure_run [OF keeps_pressure_emitter i1])
  show "inv (before_pressure inp dt e)" using k by simp
  show "config (before_pressure inp dt e) = config e" using k by (simp add: resize_pass_keeps)
  have "pressure_px ?e1 = (if resized inp e then Cleared (0, 0, 0, 1) else pressure_px e)"
  proof (cases "resized inp e")
    case True
    then have c: "canvas_width e \<noteq> scaleByPixelRatio (devicePixelRatio inp) (clientWidth inp) \<or>
      canvas_height e \<noteq> scaleByPixelRatio (devicePixelRatio inp) (clientHeight inp)"
      by (simp add: resized_def)
    have "clearColor (gl e) = (0, 0, 0, 1)" using assms by (simp add: inv_def)
    with resize_pass_changed(4) [OF c inv_wf [OF assms]] True show ?thesis
      by (simp add: pressure_px_def)
  next
    case False
    then show ?thesis by (simp add: resized_def resize_pass_unchanged)
  qed
  with k show "pressure_px (before_pressure inp dt e) =
           (if resized inp e then Cleared (0, 0, 0, 1) else pressure_px e)" by simp
qed

lemma update_pressure_px:
  assumes "inv e"
  shows "pressure_px (update inp e) =
     (jacobi_draw (before_pressure inp (update_dt (now_dt inp) (lastTime e)) (e\<lparr>lastTime := now_last inp\<rparr>))
        ^^ PRESSURE_ITERATIONS (config e))
       (decayed (before_pressure inp (update_dt (now_dt inp) (lastTime e)) (e\<lparr>lastTime := now_last inp\<rparr>)))"
proof -
  let ?dt = "update_dt (now_dt inp) (lastTime e)"
  let ?e0 = "e\<lparr>lastTime := now_last inp\<rparr>"
  let ?e2 = "before_pressure inp ?dt ?e0"
  let ?e3 = "run_passes (pressure_passes (config e)) ?e2"
  have i0: "inv ?e0" using assms by simp
  note B = before_pressure_facts [OF i0, of inp ?dt]
  have c2: "config ?e2 = config e" using B(2) by simp
  note P = pressure_passes_px [OF B(1), unfolded c2]
  have k: "inv (run_passes ([gradient_subtract_pass, advect_velocity_pass ?dt, advect_dye_pass] @
              post_passes (config e)) ?e3) \<and>
      pressure (run_passes ([gradient_subtract_pass, advect_velocity_pass ?dt, advect_dye_pass] @
              post_passes (config e)) ?e3) = pressure ?e3 \<and>
      pressure_px (run_passes ([gradient_subtract_pass, advect_velocity_pass ?dt, advect_dye_pass] @
              post_passes (config e)) ?e3) = pressure_px ?e3 \<and>
      config (run_passes ([gradient_subtract_pass, advect_velocity_pass ?dt, advect_dye_pass] @
              post_passes (config e)) ?e3) = config ?e3"
    by (rule keeps_pressure_run [OF keeps_pressure_rest P(2)])
  show ?thesis
    unfolding update_split using k P(1) by simp
qed

lemma resized_lastTime [simp]: "resized inp (e\<lparr>lastTime := t\<rparr>) = resized inp e"
  by (simp add: resized_def)

lemma pressure_px_lastTime [simp]: "pressure_px (e\<lparr>lastTime := t\<rparr>) = pressure_px e"
  by (simp add: pressure_px_def)

lemma wf_targets_distinct: "wf e \<Longrightarrow> targets_distinct e"
  by (auto simp: wf_def wf_targets_def all_targets_def targets_distinct_def)

lemma to_int32_bounds: "- (2 ^ 31) \<le> to_int32 x \<and> to_int32 x < 2 ^ 31"
  by (simp add: to_int32_def)

lemma js_sar_31: "js_sar x 31 < 2"
proof -
  have "to_int32 x div 2 ^ 31 \<le> 0"
  proof (cases "0 \<le> to_int32 x")
    case True
    then have "to_int32 x div 2 ^ 31 = 0"
      using to_int32_bounds [of x] by (intro div_pos_pos_trivial) simp_all
    then show ?thesis by simp
  next
    case False
    then have "to_int32 x div 2 ^ 31 < 0"
      by (intro div_neg_pos_less0) simp_all
    then show ?thesis by simp
  qed
  then show ?thesis by (simp add: js_sar_def)
qed

lemma bloom_levels_spec:
  "bloom_levels rw rh param i n g = (fs, g') \<Longrightarrow>
     length fs \<le> n \<and>
     (\<forall>k < length fs. width (fs ! k) = js_sar rw (int (i + k) + 1) \<and>
          height (fs ! k) = js_sar rh (int (i + k) + 1) \<and>
          2 \<le> width (fs ! k) \<and> 2 \<le> height (fs ! k)) \<and>
     (length fs < n \<longrightarrow> js_sar rw (int (i + length fs) + 1) < 2 \<or>
          js_sar rh (int (i + length fs) + 1) < 2) \<and>
     next_texture g' = next_texture g + length fs"
proof (induction n arbitrary: i g fs g')
  case 0
  then show ?case by simp
next
  case (Suc n)
  show ?case
  proof (cases "js_sar rw (int i + 1) < 2 \<or> js_sar rh (int i + 1) < 2")
    case True
    with Suc.prems show ?thesis by (auto simp: Let_def)
  next
    case False
    obtain f g1 where c: "createFBO (js_sar rw (int i + 1)) (js_sar rh (int i + 1)) FormatRGBA param g = (f, g1)"
      by (cases "createFBO (js_sar rw (int i + 1)) (js_sar rh (int i + 1)) FormatRGBA param g") auto
    obtain fs1 g2 where r: "bloom_levels rw rh param (Suc i) n g1 = (fs1, g2)"
      by (cases "bloom_levels rw rh param (Suc i) n g1") auto
    from Suc.prems False c r have fs: "fs = f # fs1" and g': "g' = g2"
      by (auto simp: Let_def)
    from c have f: "width f = js_sar rw (int i + 1)" "height f = js_sar rh (int i + 1)"
      and n1: "next_texture g1 = Suc (next_texture g)"
      by (auto simp: createFBO_def Let_def)
    note IH = Suc.IH [OF r]
    show ?thesis
      unfolding fs g' using IH f n1 False
      by (auto simp: nth_Cons split: nat.splits)
  qed
qed

lemma bloom_levels_short:
  assumes "bloom_levels rw rh param 0 n g = (fs, g')"
  shows "length fs \<le> 30"
proof (rule ccontr)
  assume "\<not> length fs \<le> 30"
  then have "30 < length fs" by simp
  with bloom_levels_spec [OF assms] have "2 \<le> width (fs ! 30) \<and> width (fs ! 30) = js_sar rw 31"
    by auto
  with js_sar_31 [of rw] show False by simp
qed

lemma js_sar_div: "n < 32 \<Longrightarrow> js_sar x (int n) = to_int32 x div 2 ^ n"
  by (simp add: js_sar_def)

lemma js_sar_halve: "n < 31 \<Longrightarrow> js_sar x (int n + 1) = js_sar x (int n) div 2"
proof -
  assume n: "n < 31"
  have "js_sar x (int (Suc n)) = to_int32 x div 2 ^ Suc n"
    using n by (intro js_sar_div) simp
  also have "\<dots> = to_int32 x div (2 ^ n * 2)"
    by (simp add: mult.commute)
  also have "\<dots> = to_int32 x div 2 ^ n div 2"
    by (rule zdiv_zmult2_eq) simp
  also have "\<dots> = js_sar x (int n) div 2"
    using n by (simp add: js_sar_div)
  finally show ?thesis by (simp add: add.commute)
qed

lemma startup_fields:
  "config (startup c0 lin cw ch now) = configure lin c0"
  "canvas_width (startup c0 lin cw ch now) = cw"
  "canvas_height (startup c0 lin cw ch now) = ch"
  "lastTime (startup c0 lin cw ch now) = now"
  "currentColor (startup c0 lin cw ch now) = (0, 0, 0)"
  by (simp_all add: startup_def Let_def split_beta)

lemma same_frame_refl [simp]: "same_frame e e"
  by (simp add: same_frame_def)

lemma same_frame_trans: "same_frame a b \<Longrightarrow> same_frame b c \<Longrightarrow> same_frame a c"
  by (simp add: same_frame_def)

lemma plain_passes:
  assumes "f \<in> set (tl (update_passes c inp dt))"
  shows "f = emitter_pass inp \<or> f = color_pass inp \<or>
    f = splat_velocity_pass inp \<or> f = splat_dye_pass inp \<or> f = curl_pass \<or>
    f = vorticity_pass dt \<or> f = divergence_pass \<or> f = clear_pressure_pass \<or>
    f = pressure_bind_pass \<or> f = pressure_iteration \<or> f = gradient_subtract_pass \<or>
    f = advect_velocity_pass dt \<or> f = advect_dye_pass \<or> f = bloom_pass \<or>
    f = sunrays_pass \<or> f = display_pass"
  using assms
  by (auto simp: update_passes_def emitter_passes_def pressure_passes_def post_passes_def
      split: if_splits)

lemma plain_same_frame:
  assumes "f \<in> set (tl (update_passes c inp dt))"
  shows "same_frame e (f e)"
  using plain_passes [OF assms] same_frame_passes by auto

lemma same_frame_run:
  assumes "\<And>f e. f \<in> set fs \<Longrightarrow> same_frame e (f e)"
  shows "same_frame e (run_passes fs e)"
  using assms
proof (induction fs arbitrary: e)
  case Nil
  show ?case by simp
next
  case (Cons f fs)
  have "same_frame e (f e)" using Cons.prems by simp
  moreover have "same_frame (f e) (run_passes fs (f e))"
    by (rule Cons.IH) (use Cons.prems in simp)
  ultimately show ?case using same_frame_trans by simp
qed

lemma update_tail:
  "update inp e =
     run_passes (tl (update_passes (config e) inp (update_dt (now_dt inp) (lastTime e))))
       (resize_pass inp (e\<lparr>lastTime := now_last inp\<rparr>))"
  by (simp add: update_def Let_def update_passes_def)

lemma update_same_frame:
  "same_frame (resize_pass inp (e\<lparr>lastTime := now_last inp\<rparr>)) (update inp e)"
  unfolding update_tail by (rule same_frame_run) (rule plain_same_frame)

lemma resize_pass_canvas:
  "canvas_width (resize_pass inp e) = scaleByPixelRatio (devicePixelRatio inp) (clientWidth inp)"
  "canvas_height (resize_pass inp e) = scaleByPixelRatio (devicePixelRatio inp) (clientHeight inp)"
  by (simp_all add: resize_pass_def Let_def split_beta)

lemma update_fields:
  "config (update inp e) = config e"
  "canvas_width (update inp e) = scaleByPixelRatio (devicePixelRatio inp) (clientWidth inp)"
  "canvas_height (update inp e) = scaleByPixelRatio (devicePixelRatio inp) (clientHeight inp)"
  using update_same_frame [of inp e]
  by (simp_all add: same_frame_def resize_pass_keeps resize_pass_canvas)

lemma funpow_inj:
  fixes f :: "'a \<Rightarrow> 'a"
  assumes "\<And>x y. f x = f y \<Longrightarrow> x = y"
  shows "(f ^^ n) x = (f ^^ n) y \<Longrightarrow> x = y"
  using assms by (induction n) auto

lemma jacobi_not_cleared: "(jacobi_draw a ^^ n) (decayed b) \<noteq> Cleared c"
  by (cases n) (simp_all add: jacobi_draw_def decayed_def)

lemma pressure_px_update_shaded:
  assumes "inv e"
  shows "pressure_px (update inp e) \<noteq> Cleared c"
  unfolding update_pressure_px [OF assms] by (rule jacobi_not_cleared)

lemma scale_1: "scaleByPixelRatio 1 300 = 300" "scaleByPixelRatio 1 150 = 150"
  "scaleByPixelRatio 1 600 = 600"
  by (simp_all add: scaleByPixelRatio_def)

lemma splat_draws_simps [simp]:
  "splat_draws (useProgram p g) = splat_draws g"
  "splat_draws (uniform p n v g) = splat_draws g"
  "splat_draws (attach f u g) = splat_draws g"
  "splat_draws (material_bind m g) = splat_draws g"
  "splat_draws (material_uniform m n v g) = splat_draws g"
  "splat_draws (g\<lparr>blend := b\<rparr>) = splat_draws g"
  by (simp_all add: splat_draws_def)

lemma splat_draws_blit:
  "program g \<noteq> Some SplatProgram \<Longrightarrow> splat_draws (blit t False g) = splat_draws g"
  by (simp add: splat_draws_def blit_draws split: option.splits)

lemma bloom_chain_splat:
  "program g \<noteq> Some SplatProgram \<Longrightarrow> splat_draws (snd (bloom_chain fbs l g)) = splat_draws g"
  by (induction fbs arbitrary: l g) (simp_all add: Let_def splat_draws_blit)

lemma blur_loop_splat:
  "program g \<noteq> Some SplatProgram \<Longrightarrow> splat_draws (blur_loop t tmp n g) = splat_draws g"
  by (induction n arbitrary: g) (simp_all add: Let_def splat_draws_blit)

lemma program_blend [simp]: "program (g\<lparr>blend := b\<rparr>) = program g"
  by simp

lemma applyBloom_splat:
  "program g \<noteq> Some SplatProgram \<Longrightarrow>
   splat_draws (applyBloom c fbs s d g) = splat_draws g \<and>
   program (applyBloom c fbs s d g) \<noteq> Some SplatProgram"
  by (simp add: applyBloom_def Let_def split_beta splat_draws_blit bloom_chain_splat
      bloom_chain_fields)

lemma applySunrays_splat:
  "splat_draws (applySunrays c s m d g) = splat_draws g"
  by (simp add: applySunrays_def Let_def splat_draws_blit)

lemma blur_splat: "splat_draws (blur t tmp n g) = splat_draws g"
  by (simp add: blur_def blur_loop_splat)

lemma is_materialE:
  assumes "is_material (activeProgram m)"
  obtains n kws where "activeProgram m = Some (MaterialProgram n kws)"
  using assms by (cases "activeProgram m" rule: is_material.cases) auto

lemma curl_pass_quiet:
  "program (gl (curl_pass e)) \<noteq> Some SplatProgram"
  "splat_draws (gl (curl_pass e)) = splat_draws (gl e)"
  "currentColor (curl_pass e) = currentColor e"
  by (simp_all add: curl_pass_def Let_def splat_draws_blit)

lemma quiet_passes:
  "quiet_pass (vorticity_pass dt)"
  "quiet_pass divergence_pass"
  "quiet_pass clear_pressure_pass"
  "quiet_pass pressure_bind_pass"
  "quiet_pass pressure_iteration"
  "quiet_pass gradient_subtract_pass"
  "quiet_pass (advect_velocity_pass dt)"
  "quiet_pass advect_dye_pass"
  "quiet_pass bloom_pass"
  "quiet_pass sunrays_pass"
  by (simp_all add: quiet_pass_def inv_passes)
    (simp_all add: pass_defs Let_def splat_draws_blit applyBloom_splat applySunrays_splat
      blur_splat blur_fields)

lemma quiet_display: "quiet_pass display_pass"
  unfolding quiet_pass_def
proof (intro allI impI)
  fix e assume a: "inv e \<and> program (gl e) \<noteq> Some SplatProgram"
  then have "is_material (activeProgram (displayMaterial e))" by (simp add: inv_def)
  then obtain n kws where m: "activeProgram (displayMaterial e) = Some (MaterialProgram n kws)"
    by (rule is_materialE)
  have p: "program (material_bind (displayMaterial e) (gl e)) = Some (MaterialProgram n kws)"
    by (simp add: material_bind_def m)
  show "inv (display_pass e) \<and> program (gl (display_pass e)) \<noteq> Some SplatProgram \<and>
        splat_draws (gl (display_pass e)) = splat_draws (gl e) \<and>
        currentColor (display_pass e) = currentColor e"
  proof (intro conjI)
    show "inv (display_pass e)" using a by (simp add: inv_passes)
  qed (use a p in \<open>simp_all add: display_pass_def Let_def splat_draws_blit\<close>)
qed

lemma quiet_run:
  assumes "\<And>f. f \<in> set fs \<Longrightarrow> quiet_pass f"
    and "inv e" and "program (gl e) \<noteq> Some SplatProgram"
  shows "splat_draws (gl (run_passes fs e)) = splat_draws (gl e) \<and>
         currentColor (run_passes fs e) = currentColor e"
  using assms
proof (induction fs arbitrary: e)
  case Nil
  show ?case by simp
next
  case (Cons f fs)
  have "quiet_pass f" using Cons.prems(1) by simp
  with Cons.prems(2,3) have 1: "inv (f e)" "program (gl (f e)) \<noteq> Some SplatProgram"
    "splat_draws (gl (f e)) = splat_draws (gl e)" "currentColor (f e) = currentColor e"
    by (simp_all add: quiet_pass_def)
  have "splat_draws (gl (run_passes fs (f e))) = splat_draws (gl (f e)) \<and>
         currentColor (run_passes fs (f e)) = currentColor (f e)"
    by (rule Cons.IH) (use Cons.prems(1) 1 in simp_all)
  with 1 show ?case by simp
qed

lemma quiet_rest:
  "f \<in> set ([vorticity_pass dt, divergence_pass] @ pressure_passes c @
      [gradient_subtract_pass, advect_velocity_pass dt, advect_dye_pass] @ post_passes c) \<Longrightarrow>
   quiet_pass f"
  by (auto simp: pressure_passes_def post_passes_def quiet_passes quiet_display split: if_splits)

lemma resize_pass_splat:
  assumes "wf e"
  shows "splat_draws (gl (resize_pass inp e)) = splat_draws (gl e)"
proof (cases "resized inp e")
  case True
  let ?w = "scaleByPixelRatio (devicePixelRatio inp) (clientWidth inp)"
  let ?h = "scaleByPixelRatio (devicePixelRatio inp) (clientHeight inp)"
  obtain fb g' where i: "initFramebuffers (config e) (supportLinearFiltering e) ?w ?h
      (Some (dye e)) (Some (velocity e)) (gl e) = (fb, g')"
    by (cases "initFramebuffers (config e) (supportLinearFiltering e) ?w ?h
      (Some (dye e)) (Some (velocity e)) (gl e)") auto
  note R = initFramebuffers_result [OF i wf_old_targets [OF assms]]
  show ?thesis
    using True i R(8) by (auto simp: resize_pass_def resized_def Let_def)
next
  case False
  then show ?thesis by (simp add: resized_def resize_pass_unchanged)
qed

lemma startup_splat: "splat_draws (gl (startup c0 lin cw ch now)) = []"
proof -
  let ?c = "configure lin c0"
  obtain m g where u: "updateKeywords ?c (new_Material, getWebGLContext) = (m, g)"
    by (cases "updateKeywords ?c (new_Material, getWebGLContext)") auto
  obtain fb g' where i: "initFramebuffers ?c lin cw ch None None g = (fb, g')"
    by (cases "initFramebuffers ?c lin cw ch None None g") auto
  have g: "splat_draws g = []"
    using u by (auto simp: updateKeywords_def setKeywords_def new_Material_def
        getWebGLContext_def Let_def splat_draws_def)
  have "wf_targets (next_texture g) (old_targets None None)"
    by (simp add: old_targets_def wf_targets_def)
  note R = initFramebuffers_result [OF i this]
  show ?thesis using u i R(8) g by (simp add: startup_def Let_def)
qed

lemma startup_bloom_length:
  "length (bloomFramebuffers (startup c0 lin cw ch now)) \<le> BLOOM_ITERATIONS (configure lin c0)"
proof -
  let ?c = "configure lin c0"
  obtain m g where u: "updateKeywords ?c (new_Material, getWebGLContext) = (m, g)"
    by (cases "updateKeywords ?c (new_Material, getWebGLContext)") auto
  obtain fb g' where i: "initFramebuffers ?c lin cw ch None None g = (fb, g')"
    by (cases "initFramebuffers ?c lin cw ch None None g") auto
  have "wf_targets (next_texture g) (old_targets None None)"
    by (simp add: old_targets_def wf_targets_def)
  note R = initFramebuffers_result [OF i this]
  show ?thesis using u i R(9) by (simp add: startup_def Let_def)
qed

lemma update_last:
  "update inp e =
     display_pass (run_passes (butlast (update_passes (config e) inp (update_dt (now_dt inp) (lastTime e))))
        (e\<lparr>lastTime := now_last inp\<rparr>))"
proof -
  let ?ps = "update_passes (config e) inp (update_dt (now_dt inp) (lastTime e))"
  have "?ps \<noteq> []" and "last ?ps = display_pass"
    by (simp_all add: update_passes_def post_passes_def)
  then have "?ps = butlast ?ps @ [display_pass]"
    using append_butlast_last_id [of ?ps] by simp
  then have "run_passes ?ps (e\<lparr>lastTime := now_last inp\<rparr>) =
      run_passes (butlast ?ps @ [display_pass]) (e\<lparr>lastTime := now_last inp\<rparr>)"
    by simp
  then show ?thesis by (simp add: update_def Let_def)
qed

lemma config_prefix:
  "config (run_passes (take k (update_passes c inp dt)) e) = config e"
proof (rule run_passes_invariant [where P = "\<lambda>x. config x = config e"])
  fix f and x :: engine
  assume f: "f \<in> set (take k (update_passes c inp dt))" and x: "config x = config e"
  from f have "f \<in> set (update_passes c inp dt)" by (rule in_set_takeD)
  from update_passes_cases [OF this] config_passes resize_pass_keeps(1) x
  show "config (f x) = config e" by auto
qed simp

lemma source_lines_append:
  "CHR 10 \<notin> set h \<Longrightarrow> source_lines (h @ s) = (h @ hd (source_lines s)) # tl (source_lines s)"
proof (induction h)
  case Nil
  have "source_lines s \<noteq> []" by (cases s) (simp_all split: list.splits)
  then show ?case by simp
next
  case (Cons c h)
  then show ?case by auto
qed

lemma source_lines_concat:
  "list_all (\<lambda>l. CHR 10 \<notin> set l) ls \<Longrightarrow> CHR 10 \<notin> set h \<Longrightarrow>
   source_lines (h @ concat (map ((#) (CHR 10)) ls)) = h # ls"
proof (induction ls arbitrary: h)
  case Nil
  then show ?case using source_lines_append [of h "[]"] by simp
next
  case (Cons l ls)
  have "source_lines (l @ concat (map ((#) (CHR 10)) ls)) = l # ls"
    using Cons by simp
  then show ?case
    using Cons.prems(2) source_lines_append [of h "CHR 10 # l @ concat (map ((#) (CHR 10)) ls)"]
    by simp
qed

lemma addKeywords_concat:
  "addKeywords source (Some keywords) =
     concat (map (\<lambda>k. ''#define '' @ k @ [CHR 0x5C, CHR ''n'']) keywords) @ source"
proof -
  have "foldl (\<lambda>a k. a @ f k) acc ks = acc @ concat (map f ks)"
    for f :: "string \<Rightarrow> string" and acc ks
    by (induction ks arbitrary: acc) simp_all
  then show ?thesis by (simp add: addKeywords_def)
qed

lemma macros_of_lines:
  assumes "CHR 10 \<notin> set h"
    and "list_all (\<lambda>l. CHR 10 \<notin> set l \<and> defined_name l = None) ls"
  shows "defined_macros (h @ concat (map ((#) (CHR 10)) ls)) =
     (case defined_name h of None \<Rightarrow> [] | Some m \<Rightarrow> [m])"
proof -
  have a: "list_all (\<lambda>l. CHR 10 \<notin> set l) ls" and b: "list_all (\<lambda>l. defined_name l = None) ls"
    using assms(2) by (simp_all add: list_all_iff)
  have "List.map_filter defined_name ls = []"
    using b by (induction ls) (simp_all add: List.map_filter_simps)
  then show ?thesis
    by (simp add: defined_macros_def source_lines_concat [OF a assms(1)] List.map_filter_simps
        split: option.splits)
qed

lemma display_header:
  assumes "CHR 10 \<notin> set (addKeywords [] (Some keywords))"
  shows "defined_macros (addKeywords displayShaderSource (Some keywords)) =
     (case defined_name (addKeywords [] (Some keywords)) of None \<Rightarrow> [] | Some m \<Rightarrow> [m])"
proof -
  have "addKeywords displayShaderSource (Some keywords) =
      addKeywords [] (Some keywords) @ displayShaderSource"
    by (simp add: addKeywords_concat)
  then show ?thesis
    unfolding displayShaderSource_def
    by (simp only:) (rule macros_of_lines [OF assms], code_simp)
qed

lemma header_names:
  "defined_name (addKeywords [] (Some (''SHADING'' # ks))) = Some ''SHADING''"
  "defined_name (addKeywords [] (Some (''BLOOM'' # ks))) = Some ''BLOOM''"
  "defined_name (addKeywords [] (Some (''SUNRAYS'' # ks))) = Some ''SUNRAYS''"
  "defined_name (addKeywords [] (Some [])) = None"
  by (simp_all add: addKeywords_concat defined_name_def blank_def identifier_char_def)

lemma display_macros:
  "defined_macros (addKeywords displayShaderSource
      (Some ((if s then [''SHADING''] else []) @ (if b then [''BLOOM''] else []) @
             (if r then [''SUNRAYS''] else [])))) =
   (if s then [''SHADING''] else if b then [''BLOOM''] else if r then [''SUNRAYS''] else [])"
proof -
  have n: "CHR 10 \<notin> set (addKeywords [] (Some ((if s then [''SHADING''] else []) @
      (if b then [''BLOOM''] else []) @ (if r then [''SUNRAYS''] else []))))"
    by (simp add: addKeywords_concat)
  show ?thesis
    unfolding display_header [OF n] by (simp add: header_names)
qed

lemma display_uniforms:
  assumes "kws = (if s then [''SHADING''] else []) @ [''BLOOM''] @ (if r then [''SUNRAYS''] else [])"
  shows "samplers (MaterialProgram n kws) =
           (if s then [''uTexture''] else [''uTexture'', ''uBloom'', ''uDithering''])"
    and "params (MaterialProgram n kws) =
           (if s then [''texelSize''] else [''texelSize'', ''ditherScale''])"
proof -
  have "defined_macros (addKeywords displayShaderSource (Some kws)) =
      (if s then [''SHADING''] else [''BLOOM''])"
    using display_macros [of s True r] by (simp add: assms)
  then show "samplers (MaterialProgram n kws) =
           (if s then [''uTexture''] else [''uTexture'', ''uBloom'', ''uDithering''])"
    and "params (MaterialProgram n kws) =
           (if s then [''texelSize''] else [''texelSize'', ''ditherScale''])"
    by simp_all
qed

lemma display_pass_keeps:
  "dye (display_pass e) = dye e" "pixels (gl (display_pass e)) = pixels (gl e)"
  by (simp_all add: display_pass_def Let_def fun_eq_iff)

lemma display_screen:
  assumes "inv e" and "BLOOM (config e)"
    and m: "activeProgram (displayMaterial e) = Some (MaterialProgram k kws)"
    and kws: "kws = (if SHADING (config e) then [''SHADING''] else []) @ [''BLOOM''] @
                    (if SUNRAYS (config e) then [''SUNRAYS''] else [])"
  shows "\<exists>us n. screen (gl (display_pass e)) =
           Shaded (MaterialProgram k kws) us
             (pixels (gl e) (texture (read (dye e))) #
              (if SHADING (config e) then [] else [pixels (gl e) (texture (bloom e)), n]))"
proof -
  from assms(1) have b: "blend (gl e) = False" by (simp add: inv_def)
  note u = display_uniforms [OF kws, of k]
  show ?thesis
    using assms(2) b
    by (simp add: display_pass_def Let_def material_bind_def material_uniform_def getUniforms_def
        m blit_screen shade_def sampled_def uniform_uniforms u
        del: samplers.simps params.simps)
qed

lemma update_material: "displayMaterial (update inp e) = displayMaterial e"
  using update_same_frame [of inp e] by (simp add: same_frame_def resize_pass_keeps)

lemma run_keeps:
  "config (run ticks e) = config e" "displayMaterial (run ticks e) = displayMaterial e"
  by (induction ticks arbitrary: e) (simp_all add: update_fields update_material)

lemma startup_material:
  "activeProgram (displayMaterial (startup c0 lin cw ch now)) =
     Some (MaterialProgram 0
       ((if SHADING (configure lin c0) then [''SHADING''] else []) @
        (if BLOOM (configure lin c0) then [''BLOOM''] else []) @
        (if SUNRAYS (configure lin c0) then [''SUNRAYS''] else [])))"
  by (simp add: startup_def Let_def split_beta updateKeywords_def setKeywords_def
      new_Material_def getWebGLContext_def)

lemma update_screen:
  assumes "e = run ticks (startup c0 lin cw ch now)"
    and "BLOOM (config e)" and "length (bloomFramebuffers (update inp e)) < 2"
  shows "\<exists>us n. screen (gl (update inp e)) =
           Shaded (MaterialProgram 0
                     ((if SHADING (config e) then [''SHADING''] else []) @ [''BLOOM''] @
                      (if SUNRAYS (config e) then [''SUNRAYS''] else [])))
             us
             (pixels (gl (update inp e)) (texture (read (dye (update inp e)))) #
              (if SHADING (config e) then [] else [Cleared (0, 0, 0, 1), n]))"
proof -
  let ?ps = "update_passes (config e) inp (update_dt (now_dt inp) (lastTime e))"
  let ?y = "run_passes (butlast ?ps) (e\<lparr>lastTime := now_last inp\<rparr>)"
  let ?k = "(if SHADING (config e) then [''SHADING''] else []) @ [''BLOOM''] @
            (if SUNRAYS (config e) then [''SUNRAYS''] else [])"
  have ie: "inv e" unfolding assms(1) by (rule inv_run [OF inv_startup])
  have u: "update inp e = display_pass ?y" by (rule update_last)
  have iy: "inv ?y"
    using inv_prefix [where e = "e\<lparr>lastTime := now_last inp\<rparr>" and c = "config e" and inp = inp
      and dt = "update_dt (now_dt inp) (lastTime e)" and k = "length ?ps - 1"] ie
    by (simp add: butlast_conv_take)
  have cy: "config ?y = config e"
    using config_prefix [where e = "e\<lparr>lastTime := now_last inp\<rparr>" and c = "config e" and inp = inp
      and dt = "update_dt (now_dt inp) (lastTime e)" and k = "length ?ps - 1"]
    by (simp add: butlast_conv_take)
  have sf: "same_frame ?y (display_pass ?y)" by (rule same_frame_passes(16))
  have ly: "length (bloomFramebuffers ?y) < 2"
    using assms(3) sf by (simp add: u same_frame_def)
  have py: "pixels (gl ?y) (texture (bloom ?y)) = Cleared (0, 0, 0, 1)"
    using iy ly by (simp add: inv_def bloom_idle_def)
  have my: "displayMaterial ?y = displayMaterial e"
    using sf update_material [of inp e] by (simp add: u same_frame_def)
  have me: "activeProgram (displayMaterial ?y) = Some (MaterialProgram 0 ?k)"
    using assms(2) startup_material [of c0 lin cw ch now]
    unfolding my unfolding assms(1) run_keeps startup_fields by simp
  have k: "?k = (if SHADING (config ?y) then [''SHADING''] else []) @ [''BLOOM''] @
                (if SUNRAYS (config ?y) then [''SUNRAYS''] else [])"
    by (simp only: cy)
  have bl: "BLOOM (config ?y)" using assms(2) cy by simp
  from display_screen [OF iy bl me k]
  obtain us n where s: "screen (gl (display_pass ?y)) =
      Shaded (MaterialProgram 0 ?k) us
        (pixels (gl ?y) (texture (read (dye ?y))) #
         (if SHADING (config ?y) then [] else [pixels (gl ?y) (texture (bloom ?y)), n]))"
    by blast
  have "screen (gl (update inp e)) =
      Shaded (MaterialProgram 0 ?k) us
        (pixels (gl (update inp e)) (texture (read (dye (update inp e)))) #
         (if SHADING (config e) then [] else [Cleared (0, 0, 0, 1), n]))"
    unfolding u display_pass_keeps s py cy ..
  then show ?thesis by blast
qed

lemma hashCode_letters:
  "hashCode ''A'' = 65" "hashCode ''D'' = 68" "hashCode ''B'' = 66" "hashCode ''C'' = 67"
  by (simp_all add: hashCode_def to_int32_def js_shl_def)

lemma hashCode_display:
  "hashCode ''SHADING'' = - 1523179638" "hashCode ''BLOOM'' = 63294947"
  "hashCode ''SUNRAYS'' = - 1138585163"
  by (simp_all add: hashCode_def to_int32_def js_shl_def)

lemma keywords_hash_sum: "keywords_hash ks = sum_list (map hashCode ks)"
proof -
  have "foldl (\<lambda>hash k. hash + hashCode k) a ks = a + sum_list (map hashCode ks)" for a
    by (induction ks arbitrary: a) simp_all
  then show ?thesis by (simp add: keywords_hash_def)
qed

lemma keywords_hash_order:
  assumes "distinct ks" and "distinct ks'" and "set ks = set ks'"
  shows "keywords_hash ks = keywords_hash ks'"
  using assms by (simp add: keywords_hash_sum sum_list_distinct_conv_sum_set)

lemma setKeywords_cached:
  assumes "programs m (keywords_hash ks) = Some p"
  shows "fst (setKeywords ks (m, g)) = m\<lparr>activeProgram := Some p\<rparr> \<and>
         snd (setKeywords ks (m, g)) = g"
  using assms by (cases "activeProgram m = Some p") (auto simp: setKeywords_def Let_def)

lemma setKeywords_compiles_once:
  "case setKeywords ks (m, g) of (m1, g1) \<Rightarrow>
     next_program g1 \<le> Suc (next_program g) \<and>
     (case setKeywords ks' (m1, g1) of (m2, g2) \<Rightarrow>
        keywords_hash ks' = keywords_hash ks \<longrightarrow>
          g2 = g1 \<and> activeProgram m2 = activeProgram m1)"
  by (auto simp: setKeywords_def Let_def split: option.splits)

lemma display_keywords_no_collision:
  "keywords_hash ((if s then [''SHADING''] else []) @ (if b then [''BLOOM''] else []) @
                  (if r then [''SUNRAYS''] else [])) =
   keywords_hash ((if s' then [''SHADING''] else []) @ (if b' then [''BLOOM''] else []) @
                  (if r' then [''SUNRAYS''] else [])) \<Longrightarrow>
   s = s' \<and> b = b' \<and> r = r'"
  by (simp add: keywords_hash_def hashCode_display split: if_splits)

lemma small_bloom_eval:
  "map width (snd (fst (initBloomFramebuffers small_bloom_config True 100 100 getWebGLContext))) = [4, 2]"
  "map height (snd (fst (initBloomFramebuffers small_bloom_config True 100 100 getWebGLContext))) = [4, 2]"
  "width (fst (fst (initBloomFramebuffers small_bloom_config True 100 100 getWebGLContext))) = 8"
  "height (fst (fst (initBloomFramebuffers small_bloom_config True 100 100 getWebGLContext))) = 8"
  "next_texture (snd (initBloomFramebuffers small_bloom_config True 100 100 getWebGLContext)) = 3"
  by code_simp+

section \<open>Properties\<close>

subsection \<open>The shader-variant cache\<close>


subsection \<open>Read and write buffers\<close>

text \<open>
  C2. From the set-up on, through any sequence of ticks and after any number of passes of
  a further tick (every \<open>swap()\<close> ends a pass), the read and the write buffer of the
  velocity, the dye and the pressure target are different textures.
\<close>

theorem read_write_distinct:
  "targets_distinct
     (run_passes (take k (update_passes c inp dt)) (run ticks (startup c0 lin cw ch now)))"
  by (rule wf_targets_distinct [OF inv_wf [OF inv_prefix [OF inv_run [OF inv_startup]]]])

subsection \<open>Time step\<close>

text \<open>
  C3. The time step of a tick is \<open>Math.min((Date.now() - lastTime) / 1000, 0.016)\<close>:
  whatever the two clock readings are, it is at most 0.016 seconds, hence at most
  1/60 second.
\<close>

theorem update_dt_le_sixtieth:
  "update_dt (now_dt inp) (lastTime e) \<le> 0.016 \<and> update_dt (now_dt inp) (lastTime e) \<le> 1 / 60"
  by (simp add: update_dt_def min_def)

subsection \<open>Silence\<close>



subsection \<open>Resizing to a new size\<close>

text \<open>
  C5. Resizing a double target to other dimensions, with blending off as
  \<open>initFramebuffers\<close> leaves it, allocates two new textures: the new read buffer holds
  the image the copy program draws from the previous read buffer, the new write buffer
  holds what \<open>createFBO\<close> cleared it to and nothing else.
\<close>

theorem resize_copies_read:
  assumes "\<not> (dwidth t = w \<and> dheight t = h)" and "blend g = False"
    and "texture (read t) < next_texture g"
    and "resizeDoubleFBO t w h fmt param g = (t', g')"
  shows "pixels g' (texture (read t')) =
           Shaded CopyProgram [uniforms g CopyProgram ''texelSize''] [pixels g (texture (read t))] \<and>
         pixels g' (texture (write t')) = Cleared (clearColor g) \<and>
         texture (read t') = next_texture g \<and> texture (write t') = Suc (next_texture g) \<and>
         next_texture g' = Suc (Suc (next_texture g)) \<and>
         dwidth t' = w \<and> dheight t' = h \<and>
         width (read t') = w \<and> height (read t') = h \<and>
         width (write t') = w \<and> height (write t') = h"
  using assms
  by (auto simp: resizeDoubleFBO_def resizeFBO_def createFBO_def Let_def blit_pixels
      shade_def sampled_def uniform_uniforms)

theorem resize_copies_read_witness:
  "(case createDoubleFBO 4 4 FormatRGBA LINEAR getWebGLContext of (t, g) \<Rightarrow>
    case resizeDoubleFBO t 8 8 FormatRGBA LINEAR g of (t', g') \<Rightarrow>
      pixels g' (texture (read t')) = Shaded CopyProgram [None] [Cleared (0, 0, 0, 1)] \<and>
      pixels g' (texture (write t')) = Cleared (0, 0, 0, 1) \<and>
      texture (read t) = 0 \<and> texture (read t') = 2 \<and> texture (write t') = 3)"
proof -
  obtain t g where c: "createDoubleFBO 4 4 FormatRGBA LINEAR getWebGLContext = (t, g)"
    by (cases "createDoubleFBO 4 4 FormatRGBA LINEAR getWebGLContext") auto
  obtain t' g' where r: "resizeDoubleFBO t 8 8 FormatRGBA LINEAR g = (t', g')"
    by (cases "resizeDoubleFBO t 8 8 FormatRGBA LINEAR g") auto
  note C = createDoubleFBO_result [OF c]
  have h1: "\<not> (dwidth t = 8 \<and> dheight t = 8)" using C by simp
  have h2: "blend g = False" using C by (simp add: getWebGLContext_def)
  have h3: "texture (read t) < next_texture g" using C by simp
  have u: "uniforms g CopyProgram ''texelSize'' = None" "clearColor g = (0, 0, 0, 1)"
    "next_texture g = 2" "pixels g (texture (read t)) = Cleared (0, 0, 0, 1)"
    "texture (read t) = 0"
    using C by (simp_all add: getWebGLContext_def)
  show ?thesis
    using resize_copies_read [OF h1 h2 h3 r] u by (auto simp: c r)
qed

subsection \<open>Resizing to the same size\<close>

text \<open>
  C6. Resizing a double target to the width and height it has returns the target itself,
  every field as it was, and leaves the graphics context as it was: nothing is allocated
  and nothing is drawn.
\<close>

theorem resizeDoubleFBO_same_size:
  "resizeDoubleFBO t (dwidth t) (dheight t) fmt param g = (t, g)"
  by (simp add: resizeDoubleFBO_def)

subsection \<open>The pressure solve\<close>




subsection \<open>Frequency to hue\<close>

text \<open>
  C8. The hue depends on the frequency alone. For every metrics object whose frequency
  is 440, whatever its bass, mid, treble and volume, the note is 69, the chroma 9 and the
  target hue 9/12 = 0.75. For every frequency of at most 20 (a missing frequency counts
  as 0) the target hue is 0.
\<close>

theorem chroma_of_440:
  "(frequency m = Some 440 \<longrightarrow>
      note_of (freq_of m) = 69 \<and> chroma_of (note_of (freq_of m)) = 9 \<and>
      targetHue (freq_of m) = 9 / 12 \<and> targetHue (freq_of m) = 0.75) \<and>
   (freq_of m \<le> 20 \<longrightarrow> targetHue (freq_of m) = 0)"
  by (simp add: freq_of_def note_of_def chroma_of_def targetHue_def js_rem_def js_trunc_def)

theorem chroma_of_440_witness:
  "targetHue (freq_of \<lparr>bass = 0.2, mid = 0.1, treble = 0.7, volume = 0.9, frequency = Some 440\<rparr>) = 0.75 \<and>
   chroma_of (note_of (freq_of \<lparr>bass = 0, mid = 1, treble = 0, volume = 0.02, frequency = Some 440\<rparr>)) = 9 \<and>
   targetHue (freq_of \<lparr>bass = 0.2, mid = 0.1, treble = 0.7, volume = 0.9, frequency = Some 15\<rparr>) = 0 \<and>
   targetHue (freq_of \<lparr>bass = 0.2, mid = 0.1, treble = 0.7, volume = 0.9, frequency = None\<rparr>) = 0"
  using chroma_of_440 [of "\<lparr>bass = 0.2, mid = 0.1, treble = 0.7, volume = 0.9, frequency = Some 440\<rparr>"]
    chroma_of_440 [of "\<lparr>bass = 0, mid = 1, treble = 0, volume = 0.02, frequency = Some 440\<rparr>"]
    chroma_of_440 [of "\<lparr>bass = 0.2, mid = 0.1, treble = 0.7, volume = 0.9, frequency = Some 15\<rparr>"]
    chroma_of_440 [of "\<lparr>bass = 0.2, mid = 0.1, treble = 0.7, volume = 0.9, frequency = None\<rparr>"]
  by (simp add: freq_of_def)

subsection \<open>The bloom mip chain\<close>

text \<open>
  C9. \<open>initBloomFramebuffers\<close> allocates the bloom target and at most \<open>BLOOM_ITERATIONS\<close>
  levels. Every level is at least 2 by 2 and has half the width and height of the one
  before it, rounded down (the first level half of the base, taken as a 32-bit integer);
  and when fewer than \<open>BLOOM_ITERATIONS\<close> levels were allocated, the next level would have
  had a width or a height below 2.
\<close>

theorem bloom_mip_chain:
  assumes "initBloomFramebuffers c lin cw ch g = ((b, fs), g')"
  shows "length fs \<le> BLOOM_ITERATIONS c \<and>
     (\<forall>k < length fs.
        2 \<le> width (fs ! k) \<and> 2 \<le> height (fs ! k) \<and>
        width (fs ! k) = (if k = 0 then to_int32 (width b) else width (fs ! (k - 1))) div 2 \<and>
        height (fs ! k) = (if k = 0 then to_int32 (height b) else height (fs ! (k - 1))) div 2) \<and>
     (length fs < BLOOM_ITERATIONS c \<longrightarrow>
        to_int32 (width b) div 2 ^ (length fs + 1) < 2 \<or>
        to_int32 (height b) div 2 ^ (length fs + 1) < 2) \<and>
     next_texture g' = next_texture g + 1 + length fs"
proof -
  obtain rw rh where res: "getResolution cw ch (BLOOM_RESOLUTION c) = (rw, rh)"
    by (cases "getResolution cw ch (BLOOM_RESOLUTION c)") auto
  obtain b0 g1 where b0: "createFBO rw rh FormatRGBA (filtering lin) g = (b0, g1)"
    by (cases "createFBO rw rh FormatRGBA (filtering lin) g") auto
  obtain fs0 g2 where l: "bloom_levels rw rh (filtering lin) 0 (BLOOM_ITERATIONS c) g1 = (fs0, g2)"
    by (cases "bloom_levels rw rh (filtering lin) 0 (BLOOM_ITERATIONS c) g1") auto
  from assms res b0 l have eq: "b = b0" "fs = fs0" "g' = g2"
    by (simp_all add: initBloomFramebuffers_def)
  have wb: "width b = rw" "height b = rh" "next_texture g1 = Suc (next_texture g)"
    using b0 eq by (auto simp: createFBO_def Let_def)
  note S = bloom_levels_spec [OF l [folded eq]]
  have len: "length fs \<le> 30" using bloom_levels_short [OF l] eq by simp
  have lv: "\<And>k. k < length fs \<Longrightarrow> width (fs ! k) = js_sar rw (int k + 1) \<and>
      height (fs ! k) = js_sar rh (int k + 1) \<and> 2 \<le> width (fs ! k) \<and> 2 \<le> height (fs ! k)"
    using S by auto
  have halving: "\<And>k. k < length fs \<Longrightarrow>
        width (fs ! k) = (if k = 0 then to_int32 (width b) else width (fs ! (k - 1))) div 2 \<and>
        height (fs ! k) = (if k = 0 then to_int32 (height b) else height (fs ! (k - 1))) div 2"
  proof -
    fix k assume k: "k < length fs"
    show "width (fs ! k) = (if k = 0 then to_int32 (width b) else width (fs ! (k - 1))) div 2 \<and>
        height (fs ! k) = (if k = 0 then to_int32 (height b) else height (fs ! (k - 1))) div 2"
    proof (cases k)
      case 0
      then show ?thesis using lv [OF k] wb by (simp add: js_sar_def)
    next
      case (Suc j)
      then have j: "j < length fs" "j + 1 < 31" using k len by simp_all
      have "js_sar rw (int (j + 1) + 1) = js_sar rw (int (j + 1)) div 2"
        "js_sar rh (int (j + 1) + 1) = js_sar rh (int (j + 1)) div 2"
        using js_sar_halve [OF j(2)] by simp_all
      then show ?thesis using lv [OF k] lv [OF j(1)] Suc by (simp add: add.commute)
    qed
  qed
  have stop: "length fs < BLOOM_ITERATIONS c \<Longrightarrow>
        to_int32 (width b) div 2 ^ (length fs + 1) < 2 \<or>
        to_int32 (height b) div 2 ^ (length fs + 1) < 2"
  proof -
    assume "length fs < BLOOM_ITERATIONS c"
    with S have "js_sar rw (int (length fs) + 1) < 2 \<or> js_sar rh (int (length fs) + 1) < 2"
      by simp
    moreover have "length fs + 1 < 32" using len by simp
    ultimately show ?thesis
      using js_sar_div [of "length fs + 1" rw] js_sar_div [of "length fs + 1" rh] wb
      by (simp add: add.commute)
  qed
  have 1: "length fs \<le> BLOOM_ITERATIONS c" using S by simp
  have 4: "next_texture g' = next_texture g + 1 + length fs" using S wb by simp
  show ?thesis
  proof (intro conjI allI impI)
    show "length fs \<le> BLOOM_ITERATIONS c" by (rule 1)
    show "next_texture g' = next_texture g + 1 + length fs" by (rule 4)
    show "to_int32 (width b) div 2 ^ (length fs + 1) < 2 \<or>
        to_int32 (height b) div 2 ^ (length fs + 1) < 2" if "length fs < BLOOM_ITERATIONS c"
      using stop [OF that] .
    fix k assume k: "k < length fs"
    show "2 \<le> width (fs ! k)" using lv [OF k] by simp
    show "2 \<le> height (fs ! k)" using lv [OF k] by simp
    show "width (fs ! k) = (if k = 0 then to_int32 (width b) else width (fs ! (k - 1))) div 2"
      using halving [OF k] by simp
    show "height (fs ! k) = (if k = 0 then to_int32 (height b) else height (fs ! (k - 1))) div 2"
      using halving [OF k] by simp
  qed
qed

theorem bloom_mip_chain_witness:
  "(case initBloomFramebuffers small_bloom_config True 100 100 getWebGLContext of ((b, fs), g') \<Rightarrow>
      width b = 8 \<and> height b = 8 \<and> map width fs = [4, 2] \<and> map height fs = [4, 2] \<and>
      length fs \<le> BLOOM_ITERATIONS small_bloom_config \<and>
      2 \<le> width (fs ! 1) \<and> width (fs ! 1) = width (fs ! 0) div 2 \<and>
      width (fs ! 0) = to_int32 (width b) div 2 \<and>
      (to_int32 (width b) div 2 ^ (length fs + 1) < 2 \<or>
       to_int32 (height b) div 2 ^ (length fs + 1) < 2) \<and>
      next_texture g' = next_texture getWebGLContext + 1 + length fs)"
proof -
  obtain b fs g' where eq:
    "initBloomFramebuffers small_bloom_config True 100 100 getWebGLContext = ((b, fs), g')"
    by (cases "initBloomFramebuffers small_bloom_config True 100 100 getWebGLContext") auto
  have ev: "map width fs = [4, 2]" "map height fs = [4, 2]" "width b = 8" "height b = 8"
    using small_bloom_eval by (simp_all add: eq)
  have "length (map width fs) = 2" by (simp add: ev(1))
  then have len: "length fs = 2" by simp
  have it: "BLOOM_ITERATIONS small_bloom_config = 8"
    by (simp add: small_bloom_config_def default_config_def)
  note T = bloom_mip_chain [OF eq]
  have lv: "\<And>k. k < length fs \<Longrightarrow> 2 \<le> width (fs ! k) \<and>
      width (fs ! k) = (if k = 0 then to_int32 (width b) else width (fs ! (k - 1))) div 2"
    using T by blast
  have k0: "width (fs ! 0) = to_int32 (width b) div 2"
    using lv [of 0] len by simp
  have k1: "2 \<le> width (fs ! 1)" "width (fs ! 1) = width (fs ! 0) div 2"
    using lv [of 1] len by simp_all
  have stop: "to_int32 (width b) div 2 ^ (length fs + 1) < 2 \<or>
       to_int32 (height b) div 2 ^ (length fs + 1) < 2"
    using T len it by simp
  show ?thesis
    using T k0 k1 stop ev by (simp add: eq)
qed

subsection \<open>Bloom with fewer than two levels\<close>




end
